theory Spec2Isabelle
  imports Complex_Main "HOL-Library.AList"
begin

section \<open>Python values and exceptions\<close>

text \<open>
  The decoded carrier responses are JSON documents (for the second carrier, the XML
  document after \<open>xmltodict.parse\<close> and a \<open>json.dumps\<close>/\<open>json.loads\<close> round trip).
  A JSON object is an association list with distinct keys (the decoder keeps one value
  per key); a key is looked up with \<open>map_of\<close>.
  A text is a list of characters, and a character is a code point below 256; a text
  with a code point from 256 on has no counterpart here.
\<close>

datatype json =
    JNull
  | JBool bool
  | JNum int
  | JStr string
  | JList "json list"
  | JObj "(string \<times> json) list"

datatype py_error =
    AttributeError
  | KeyError
  | TypeError
  | ValueError
  | IndexError
  | ZeroDivisionError
  | UnboundLocalError
  | TransportError

text \<open>
  A JSON number with a fraction behaves like \<open>JNum\<close> in every branch below: it is no
  dict, no list and no string, and it is hashable.
  An exception is the \<open>Inl\<close> of a sum. \<open>py_bind\<close> sequences two steps, the second
  skipped when the first raises; \<open>try_except\<close> is \<^verbatim>\<open>try: x = e  except: x = d\<close>.
\<close>

definition py_bind :: "py_error + 'a \<Rightarrow> ('a \<Rightarrow> py_error + 'b) \<Rightarrow> py_error + 'b" where
  "py_bind m f = (case m of Inl e \<Rightarrow> Inl e | Inr v \<Rightarrow> f v)"

definition try_except :: "py_error + 'a \<Rightarrow> 'a \<Rightarrow> 'a" where
  "try_except m d = (case m of Inl e \<Rightarrow> d | Inr v \<Rightarrow> v)"

text \<open>\<^verbatim>\<open>x.get(key)\<close>: only a dict has \<^verbatim>\<open>get\<close>; a missing key gives None.\<close>

definition py_get :: "json \<Rightarrow> string \<Rightarrow> py_error + json" where
  "py_get x key =
     (case x of
        JObj kvs \<Rightarrow> Inr (case map_of kvs key of None \<Rightarrow> JNull | Some v \<Rightarrow> v)
      | _ \<Rightarrow> Inl AttributeError)"

text \<open>\<^verbatim>\<open>x.get(key, default)\<close>.\<close>

definition py_get_default :: "json \<Rightarrow> string \<Rightarrow> json \<Rightarrow> py_error + json" where
  "py_get_default x key dflt =
     (case x of
        JObj kvs \<Rightarrow> Inr (case map_of kvs key of None \<Rightarrow> dflt | Some v \<Rightarrow> v)
      | _ \<Rightarrow> Inl AttributeError)"

text \<open>
  \<^verbatim>\<open>x["key"]\<close> with a string key: KeyError on a dict without the key, TypeError on
  a list, a string, a number or None.
\<close>

definition py_item :: "json \<Rightarrow> string \<Rightarrow> py_error + json" where
  "py_item x key =
     (case x of
        JObj kvs \<Rightarrow> (case map_of kvs key of None \<Rightarrow> Inl KeyError | Some v \<Rightarrow> Inr v)
      | _ \<Rightarrow> Inl TypeError)"

text \<open>\<^verbatim>\<open>xs[0]\<close> on a list.\<close>

definition py_first :: "json list \<Rightarrow> py_error + json" where
  "py_first xs = (case xs of [] \<Rightarrow> Inl IndexError | x # _ \<Rightarrow> Inr x)"

text \<open>
  \<^verbatim>\<open>table[key]\<close> and \<^verbatim>\<open>table.get(key)\<close> on a dict whose keys are strings, with any
  decoded value as the key: a list or a dict is unhashable (TypeError), any other
  value that is not a key of the table is missing.
\<close>

definition py_dict_item :: "(string \<times> 'v) list \<Rightarrow> json \<Rightarrow> py_error + 'v" where
  "py_dict_item table key =
     (case key of
        JStr s \<Rightarrow> (case map_of table s of None \<Rightarrow> Inl KeyError | Some v \<Rightarrow> Inr v)
      | JList _ \<Rightarrow> Inl TypeError
      | JObj _ \<Rightarrow> Inl TypeError
      | _ \<Rightarrow> Inl KeyError)"

definition py_dict_get :: "(string \<times> 'v) list \<Rightarrow> json \<Rightarrow> py_error + 'v option" where
  "py_dict_get table key =
     (case key of
        JStr s \<Rightarrow> Inr (map_of table s)
      | JList _ \<Rightarrow> Inl TypeError
      | JObj _ \<Rightarrow> Inl TypeError
      | _ \<Rightarrow> Inr None)"

text \<open>\<^verbatim>\<open>a + b\<close> on decoded values (a bool counts as 0 or 1).\<close>

definition py_add :: "json \<Rightarrow> json \<Rightarrow> py_error + json" where
  "py_add a b =
     (case (a, b) of
        (JStr x, JStr y) \<Rightarrow> Inr (JStr (x @ y))
      | (JList x, JList y) \<Rightarrow> Inr (JList (x @ y))
      | (JNum x, JNum y) \<Rightarrow> Inr (JNum (x + y))
      | (JNum x, JBool y) \<Rightarrow> Inr (JNum (x + of_bool y))
      | (JBool x, JNum y) \<Rightarrow> Inr (JNum (of_bool x + y))
      | (JBool x, JBool y) \<Rightarrow> Inr (JNum (of_bool x + of_bool y))
      | _ \<Rightarrow> Inl TypeError)"

text \<open>
  The cased characters below code point 256: the letters \<open>a\<close> to \<open>z\<close> and the letters
  from \<open>0xE0\<close> to \<open>0xFE\<close> without the division sign \<open>0xF7\<close>, each 32 above its upper
  case.
\<close>

definition small_letters :: string where
  "small_letters =
     ''abcdefghijklmnopqrstuvwxyz'' @
     [CHR 0xE0, CHR 0xE1, CHR 0xE2, CHR 0xE3, CHR 0xE4, CHR 0xE5, CHR 0xE6, CHR 0xE7,
     CHR 0xE8, CHR 0xE9, CHR 0xEA, CHR 0xEB, CHR 0xEC, CHR 0xED, CHR 0xEE, CHR 0xEF,
     CHR 0xF0, CHR 0xF1, CHR 0xF2, CHR 0xF3, CHR 0xF4, CHR 0xF5, CHR 0xF6, CHR 0xF8,
     CHR 0xF9, CHR 0xFA, CHR 0xFB, CHR 0xFC, CHR 0xFD, CHR 0xFE]"

definition capital_letters :: string where
  "capital_letters =
     ''ABCDEFGHIJKLMNOPQRSTUVWXYZ'' @
     [CHR 0xC0, CHR 0xC1, CHR 0xC2, CHR 0xC3, CHR 0xC4, CHR 0xC5, CHR 0xC6, CHR 0xC7,
     CHR 0xC8, CHR 0xC9, CHR 0xCA, CHR 0xCB, CHR 0xCC, CHR 0xCD, CHR 0xCE, CHR 0xCF,
     CHR 0xD0, CHR 0xD1, CHR 0xD2, CHR 0xD3, CHR 0xD4, CHR 0xD5, CHR 0xD6, CHR 0xD8,
     CHR 0xD9, CHR 0xDA, CHR 0xDB, CHR 0xDC, CHR 0xDD, CHR 0xDE]"

text \<open>
  \<^verbatim>\<open>s.upper()\<close> and \<^verbatim>\<open>s.lower()\<close>; only a string has them. The sharp s \<open>0xDF\<close>
  becomes \<open>SS\<close>. The upper case of the micro sign \<open>0xB5\<close> and of \<open>0xFF\<close> lies beyond
  code point 255: these two are left as they are, every other character is as in
  Python.
\<close>

definition lower_char :: "char \<Rightarrow> char" where
  "lower_char c =
     (case map_of (zip capital_letters small_letters) c of None \<Rightarrow> c | Some l \<Rightarrow> l)"

definition upper_chars :: "char \<Rightarrow> string" where
  "upper_chars c =
     (if c = CHR 0xDF then ''SS''
      else (case map_of (zip small_letters capital_letters) c of None \<Rightarrow> [c] | Some u \<Rightarrow> [u]))"

definition upper :: "string \<Rightarrow> string" where
  "upper s = concat (map upper_chars s)"

definition lower :: "string \<Rightarrow> string" where
  "lower s = map lower_char s"

definition py_upper :: "json \<Rightarrow> py_error + json" where
  "py_upper x = (case x of JStr s \<Rightarrow> Inr (JStr (upper s)) | _ \<Rightarrow> Inl AttributeError)"

text \<open>\<^verbatim>\<open>sep.join(items)\<close>: every item must be a string.\<close>

fun join_strings :: "string \<Rightarrow> string list \<Rightarrow> string" where
  "join_strings sep [] = []"
| "join_strings sep [x] = x"
| "join_strings sep (x # y # ys) = x @ sep @ join_strings sep (y # ys)"

fun the_strings :: "json list \<Rightarrow> string list option" where
  "the_strings [] = Some []"
| "the_strings (JStr s # xs) = (case the_strings xs of None \<Rightarrow> None | Some ss \<Rightarrow> Some (s # ss))"
| "the_strings (_ # xs) = None"

definition py_join :: "string \<Rightarrow> json list \<Rightarrow> py_error + json" where
  "py_join sep items =
     (case the_strings items of None \<Rightarrow> Inl TypeError | Some ss \<Rightarrow> Inr (JStr (join_strings sep ss)))"

text \<open>
  What \<^verbatim>\<open>results.extend(x)\<close> appends: the elements of a list, the keys of a dict,
  the characters of a string; None, a number and a bool are not iterable.
\<close>

definition py_iter :: "json \<Rightarrow> py_error + json list" where
  "py_iter x =
     (case x of
        JList xs \<Rightarrow> Inr xs
      | JObj kvs \<Rightarrow> Inr (map (\<lambda>(k, v). JStr k) kvs)
      | JStr s \<Rightarrow> Inr (map (\<lambda>c. JStr [c]) s)
      | _ \<Rightarrow> Inl TypeError)"


section \<open>chunk\_list\<close>

text \<open>
  \<^verbatim>\<open>range(0, n, k)\<close> for a positive step: \<open>0, k, 2k, ...\<close> below \<open>n\<close>.
\<close>

function range_step :: "nat \<Rightarrow> nat \<Rightarrow> nat \<Rightarrow> nat list" where
  "range_step i n k = (if k = 0 \<or> n \<le> i then [] else i # range_step (i + k) n k)"
  by pat_completeness auto
termination
  by (relation "measure (\<lambda>(i, n, k). n - i)") auto

declare range_step.simps [simp del]

text \<open>The slice \<^verbatim>\<open>whole_list[i : j]\<close> for \<open>0 \<le> i \<le> j\<close>.\<close>

definition slice :: "'a list \<Rightarrow> nat \<Rightarrow> nat \<Rightarrow> 'a list" where
  "slice xs i j = take (j - i) (drop i xs)"

text \<open>
  \<^verbatim>\<open>chunk_list(chunk_size, whole_list)\<close>: a zero step makes \<^verbatim>\<open>range\<close> raise
  ValueError, a negative step gives the empty range.
\<close>

definition chunk_list :: "int \<Rightarrow> 'a list \<Rightarrow> py_error + 'a list list" where
  "chunk_list chunk_size whole_list =
     (if chunk_size = 0 then Inl ValueError
      else if chunk_size < 0 then Inr []
      else Inr (map (\<lambda>i. slice whole_list i (i + nat chunk_size))
                  (range_step 0 (length whole_list) (nat chunk_size))))"

section \<open>datetime.strptime\<close>

text \<open>
  The program parses timestamps with the library function \<^verbatim>\<open>datetime.strptime\<close> and
  two constant formats. The library turns the format into a regular expression, takes
  its first match at the start of the text (alternatives in the order written, with
  backtracking, letters compared without case), refuses text left over after the match,
  and builds the datetime from the matched groups. The model covers the directives of
  the program's two formats in the C locale; any other directive is refused.
\<close>

datatype datetime = Datetime nat nat nat nat nat nat

datatype tok = Directive char | Spaces | Literal char | Stray

text \<open>
  A run of whitespace in the format becomes one \<^verbatim>\<open>\s+\<close>. The whitespace class of
  Python's strings below code point 256: the blank, \<open>0x09\<close> to \<open>0x0D\<close>, the separators
  \<open>0x1C\<close> to \<open>0x1F\<close>, the next-line character \<open>0x85\<close> and the no-break space
  \<open>0xA0\<close>. The decimal digits below code point 256 are \<open>0\<close> to \<open>9\<close> (the superscript
  digits and the fractions are no decimal digits).
\<close>

definition is_space :: "char \<Rightarrow> bool" where
  "is_space c =
     (c \<in> set [CHR '' '', CHR 0x09, CHR 0x0A, CHR 0x0B, CHR 0x0C, CHR 0x0D,
                 CHR 0x1C, CHR 0x1D, CHR 0x1E, CHR 0x1F, CHR 0x85, CHR 0xA0])"

definition is_digit :: "char \<Rightarrow> bool" where
  "is_digit c = (c \<in> set ''0123456789'')"

definition one_of :: "string \<Rightarrow> char \<Rightarrow> bool" where
  "one_of s c = (c \<in> set s)"

definition same_letter :: "char \<Rightarrow> char \<Rightarrow> bool" where
  "same_letter a c = (lower_char a = lower_char c)"

fun compile_format :: "string \<Rightarrow> tok list" where
  "compile_format [] = []"
| "compile_format [c] =
     (if c = CHR ''%'' then [Stray] else if is_space c then [Spaces] else [Literal c])"
| "compile_format (c # d # cs) =
     (if c = CHR ''%'' then Directive d # compile_format cs
      else if is_space c then
        (if is_space d then compile_format (d # cs) else Spaces # compile_format (d # cs))
      else Literal c # compile_format (d # cs))"

definition month_names :: "string list" where
  "month_names = [''january'', ''february'', ''march'', ''april'', ''may'', ''june'', ''july'',
                  ''august'', ''september'', ''october'', ''november'', ''december'']"

text \<open>
  The alternatives of each directive, in the library's order; an alternative is a
  sequence of character classes.
    \<^verbatim>\<open>%Y\<close>: \<^verbatim>\<open>\d\d\d\d\<close>;
    \<^verbatim>\<open>%m\<close>, \<^verbatim>\<open>%I\<close>: \<^verbatim>\<open>1[0-2]|0[1-9]|[1-9]\<close>;
    \<^verbatim>\<open>%d\<close>: \<^verbatim>\<open>3[0-1]|[1-2]\d|0[1-9]|[1-9]| [1-9]\<close>;
    \<^verbatim>\<open>%H\<close>: \<^verbatim>\<open>2[0-3]|[0-1]\d|\d\<close>;
    \<^verbatim>\<open>%M\<close>: \<^verbatim>\<open>[0-5]\d|\d\<close>;
    \<^verbatim>\<open>%S\<close>: \<^verbatim>\<open>6[0-1]|[0-5]\d|\d\<close>;
    \<^verbatim>\<open>%B\<close>: the month names; \<^verbatim>\<open>%p\<close>: \<^verbatim>\<open>am|pm\<close>.
\<close>

definition directive_alts :: "char \<Rightarrow> (char \<Rightarrow> bool) list list option" where
  "directive_alts d =
     (if d = CHR ''Y'' then Some [[is_digit, is_digit, is_digit, is_digit]]
      else if d = CHR ''m'' \<or> d = CHR ''I'' then
        Some [[one_of ''1'', one_of ''012''], [one_of ''0'', one_of ''123456789''],
              [one_of ''123456789'']]
      else if d = CHR ''d'' then
        Some [[one_of ''3'', one_of ''01''], [one_of ''12'', is_digit],
              [one_of ''0'', one_of ''123456789''], [one_of ''123456789''],
              [one_of '' '', one_of ''123456789'']]
      else if d = CHR ''H'' then
        Some [[one_of ''2'', one_of ''0123''], [one_of ''01'', is_digit], [is_digit]]
      else if d = CHR ''M'' then
        Some [[one_of ''012345'', is_digit], [is_digit]]
      else if d = CHR ''S'' then
        Some [[one_of ''6'', one_of ''01''], [one_of ''012345'', is_digit], [is_digit]]
      else if d = CHR ''B'' then Some (map (map same_letter) month_names)
      else if d = CHR ''p'' then Some (map (map same_letter) [''am'', ''pm''])
      else None)"

fun match_seq :: "(char \<Rightarrow> bool) list \<Rightarrow> string \<Rightarrow> (string \<times> string) option" where
  "match_seq [] s = Some ([], s)"
| "match_seq (p # ps) [] = None"
| "match_seq (p # ps) (c # cs) =
     (if p c then (case match_seq ps cs of None \<Rightarrow> None | Some (m, r) \<Rightarrow> Some (c # m, r))
      else None)"

text \<open>
  The ways one token can match at the start of the text, the preferred first: each is
  the matched text and the rest. \<^verbatim>\<open>\s+\<close> is greedy and gives characters back.
\<close>

definition match_tok :: "tok \<Rightarrow> string \<Rightarrow> (string \<times> string) list" where
  "match_tok t s =
     (case t of
        Directive d \<Rightarrow>
          (case directive_alts d of None \<Rightarrow> []
           | Some alts \<Rightarrow> List.map_filter (\<lambda>a. match_seq a s) alts)
      | Spaces \<Rightarrow> map (\<lambda>m. (take m s, drop m s)) (rev [1 ..< Suc (length (takeWhile is_space s))])
      | Literal c \<Rightarrow> (case s of [] \<Rightarrow> [] | x # r \<Rightarrow> if same_letter c x then [([x], r)] else [])
      | Stray \<Rightarrow> [])"

text \<open>
  All matches of the token sequence, the regular expression's first match first: the
  groups (directive and matched text, in the order of the format) and the text left.
\<close>

fun match_toks :: "tok list \<Rightarrow> string \<Rightarrow> ((char \<times> string) list \<times> string) list" where
  "match_toks [] s = [([], s)]"
| "match_toks (t # ts) s =
     concat (map (\<lambda>(m, r). map (\<lambda>(g, r'). ((case t of Directive d \<Rightarrow> [(d, m)] | _ \<Rightarrow> []) @ g, r'))
                                   (match_toks ts r))
                 (match_tok t s))"

text \<open>\<^verbatim>\<open>int(text)\<close> on digits, surrounding blanks ignored.\<close>

definition digit_val :: "char \<Rightarrow> nat" where
  "digit_val c = (case map_of (zip ''0123456789'' [0, 1, 2, 3, 4, 5, 6, 7, 8, 9]) c of
                    None \<Rightarrow> 0 | Some n \<Rightarrow> n)"

definition to_nat :: "string \<Rightarrow> nat" where
  "to_nat s = foldl (\<lambda>n c. 10 * n + digit_val c) 0 (filter is_digit s)"

fun index_of :: "'a \<Rightarrow> 'a list \<Rightarrow> nat" where
  "index_of x [] = 0"
| "index_of x (y # ys) = (if x = y then 0 else Suc (index_of x ys))"

text \<open>
  The fields set from one group. \<^verbatim>\<open>%I\<close> reads the \<^verbatim>\<open>%p\<close> group: 12 AM is hour 0,
  PM adds 12 except at 12.
\<close>

definition set_field :: "(char \<times> string) list \<Rightarrow> char \<times> string \<Rightarrow> datetime \<Rightarrow> datetime" where
  "set_field found g dt =
     (case (g, dt) of
        ((key, text), Datetime year month day hour minute second) \<Rightarrow>
          if key = CHR ''Y'' then Datetime (to_nat text) month day hour minute second
          else if key = CHR ''m'' then Datetime year (to_nat text) day hour minute second
          else if key = CHR ''B'' then
            Datetime year (Suc (index_of (lower text) month_names)) day hour minute second
          else if key = CHR ''d'' then Datetime year month (to_nat text) hour minute second
          else if key = CHR ''H'' then Datetime year month day (to_nat text) minute second
          else if key = CHR ''I'' then
            (let h = to_nat text;
                 ampm = (case map_of found (CHR ''p'') of None \<Rightarrow> [] | Some a \<Rightarrow> lower a)
             in Datetime year month day
                  (if ampm = [] \<or> ampm = ''am'' then (if h = 12 then 0 else h)
                   else if ampm = ''pm'' then (if h \<noteq> 12 then h + 12 else h)
                   else h)
                  minute second)
          else if key = CHR ''M'' then Datetime year month day hour (to_nat text) second
          else if key = CHR ''S'' then Datetime year month day hour minute (to_nat text)
          else dt)"

definition is_leap :: "nat \<Rightarrow> bool" where
  "is_leap y = (y mod 4 = 0 \<and> (y mod 100 \<noteq> 0 \<or> y mod 400 = 0))"

definition days_in_month :: "nat \<Rightarrow> nat \<Rightarrow> nat" where
  "days_in_month y m =
     (if m = 2 then (if is_leap y then 29 else 28)
      else if m \<in> set [4, 6, 9, 11] then 30 else 31)"

text \<open>The datetime constructor's range checks.\<close>

definition valid_datetime :: "datetime \<Rightarrow> bool" where
  "valid_datetime dt =
     (case dt of Datetime year month day hour minute second \<Rightarrow>
        1 \<le> year \<and> year \<le> 9999 \<and> 1 \<le> month \<and> month \<le> 12
        \<and> 1 \<le> day \<and> day \<le> days_in_month year month
        \<and> hour \<le> 23 \<and> minute \<le> 59 \<and> second \<le> 59)"

text \<open>
  \<^verbatim>\<open>datetime.strptime(data_string, format)\<close>: ValueError when the format has a
  directive outside the model or a stray \<open>%\<close>, when the text does not match, when text
  is left over, and when the fields are no date. The defaults are 1900-01-01 00:00:00.
\<close>

definition bad_format :: "tok list \<Rightarrow> bool" where
  "bad_format toks =
     (\<exists>t \<in> set toks. case t of Directive d \<Rightarrow> directive_alts d = None | Stray \<Rightarrow> True | _ \<Rightarrow> False)"

definition strptime :: "string \<Rightarrow> string \<Rightarrow> py_error + datetime" where
  "strptime data_string format =
     (let toks = compile_format format in
      if bad_format toks then Inl ValueError
      else (case match_toks toks data_string of
              [] \<Rightarrow> Inl ValueError
            | (found, rest) # _ \<Rightarrow>
                if rest \<noteq> [] then Inl ValueError
                else (let dt = foldl (\<lambda>dt g. set_field found g dt) (Datetime 1900 1 1 0 0 0) found
                      in if valid_datetime dt then Inr dt else Inl ValueError)))"

text \<open>The first argument must be a string.\<close>

definition py_strptime :: "json \<Rightarrow> string \<Rightarrow> py_error + datetime" where
  "py_strptime x format = (case x of JStr s \<Rightarrow> strptime s format | _ \<Rightarrow> Inl TypeError)"

section \<open>Output records and diagnostics\<close>

text \<open>
  A simplified tracking record is a Python dict: an association list from the key to
  its value, in insertion order. A value is a decoded value (None is \<open>JNull\<close>) or a
  datetime. \<^verbatim>\<open>d[key] = v\<close> is \<open>AList.update\<close>. A printed line is a diagnostic.
\<close>

datatype pyval = PJson json | PDatetime datetime

type_synonym pydict = "(string \<times> pyval) list"

datatype diagnostic =
    FailRateWarning rat
  | FailedAtRequest string

datatype tracking_output = Simplified "pydict list" | RawResults "json list"

section \<open>Carrier A: UPS\<close>

text \<open>
  Names of the source that begin with an underscore carry the prefix \<open>p_\<close> here.
\<close>

record ups =
  ups_username :: string
  ups_password :: string
  ups_license :: string

definition ups_status_codes :: "(string \<times> json) list" where
  "ups_status_codes =
    [(''X'', JObj [(''general_status'', JStr ''Exception''), (''ups_status'', JStr ''Exception''),
                   (''status_rank'', JNum 9)]),
     (''RS'', JObj [(''general_status'', JStr ''Return to Sender''),
                    (''ups_status'', JStr ''Returned to Shipper''), (''status_rank'', JNum 8)]),
     (''NA'', JObj [(''general_status'', JStr ''Not Available''),
                    (''ups_status'', JStr ''Not Available''), (''status_rank'', JNum 7)]),
     (''MV'', JObj [(''general_status'', JStr ''Cancelled''),
                    (''ups_status'', JStr ''Billing Information Voided''), (''status_rank'', JNum 6)]),
     (''M'', JObj [(''general_status'', JStr ''Pre-Shipment''),
                   (''ups_status'', JStr ''Billing Information Received''), (''status_rank'', JNum 5)]),
     (''P'', JObj [(''general_status'', JStr ''In Transit''), (''ups_status'', JStr ''Pickup''),
                   (''status_rank'', JNum 4)]),
     (''I'', JObj [(''general_status'', JStr ''In Transit''), (''ups_status'', JStr ''In Transit''),
                   (''status_rank'', JNum 3)]),
     (''O'', JObj [(''general_status'', JStr ''Out for Delivery''),
                   (''ups_status'', JStr ''Out for Delivery''), (''status_rank'', JNum 2)]),
     (''D'', JObj [(''general_status'', JStr ''Delivered''), (''ups_status'', JStr ''Delivered''),
                   (''status_rank'', JNum 1)])]"

definition p_create_ups_request :: "ups \<Rightarrow> string list \<Rightarrow> json list" where
  "p_create_ups_request self tracking_list =
     map (\<lambda>tracking_number.
            JObj [(''Security'',
                   JObj [(''UsernameToken'',
                          JObj [(''Username'', JStr (ups_username self)),
                                (''Password'', JStr (ups_password self))]),
                         (''UPSServiceAccessToken'',
                          JObj [(''AccessLicenseNumber'', JStr (ups_license self))])]),
                  (''TrackRequest'',
                   JObj [(''Request'', JObj [(''RequestAction'', JStr ''Track''),
                                             (''RequestOption'', JStr ''activity'')]),
                         (''InquiryNumber'', JStr tracking_number)])])
         tracking_list"

text \<open>
  The network is a parameter: \<open>net i request\<close> is what the \<open>i\<close>-th request of the loop
  gives, an exception of the transport or of the decoding (\<open>Inl\<close>) or the decoded body.

  One pass of the fetch loop of \<^verbatim>\<open>_track_ups\<close>: nothing guards the request, so an
  exception leaves the loop and the function.
\<close>

fun ups_fetch_loop ::
  "(nat \<Rightarrow> json \<Rightarrow> py_error + json) \<Rightarrow> nat \<Rightarrow> json list \<Rightarrow> json list \<times> json list
     \<Rightarrow> py_error + (json list \<times> json list)" where
  "ups_fetch_loop net i [] (tracking_results, ups_failed) = Inr (tracking_results, ups_failed)"
| "ups_fetch_loop net i (request_data # rest) (tracking_results, ups_failed) =
     (case net i request_data of
        Inl e \<Rightarrow> Inl e
      | Inr resp \<Rightarrow>
          (case py_get resp ''Fault'' of
             Inl e \<Rightarrow> Inl e
           | Inr fault \<Rightarrow>
               if fault \<noteq> JNull then
                 (case py_bind (py_get request_data ''TrackRequest'')
                         (\<lambda>t. py_get t ''InquiryNumber'') of
                    Inl e \<Rightarrow> Inl e
                  | Inr inquiry \<Rightarrow>
                      ups_fetch_loop net (Suc i) rest (tracking_results, ups_failed @ [inquiry]))
               else ups_fetch_loop net (Suc i) rest (tracking_results @ [resp], ups_failed)))"

text \<open>
  \<^verbatim>\<open>_track_ups\<close>: the results and what was printed. The quotient of the two lengths
  is a rational here; the source's float quotient compares with \<^verbatim>\<open>0.05\<close> the same
  way for every list shorter than \<open>2 ^ 52\<close>. The division is unconditional.
\<close>

definition p_track_ups ::
  "(nat \<Rightarrow> json \<Rightarrow> py_error + json) \<Rightarrow> json list \<Rightarrow> py_error + (json list \<times> diagnostic list)" where
  "p_track_ups net ups_requests =
     (case ups_fetch_loop net 0 ups_requests ([], []) of
        Inl e \<Rightarrow> Inl e
      | Inr (tracking_results, ups_failed) \<Rightarrow>
          if length ups_requests = 0 then Inl ZeroDivisionError
          else (let fail_rate = (of_nat (length ups_failed) :: rat) / of_nat (length ups_requests)
                in Inr (tracking_results,
                        if fail_rate > 5 / 100 then [FailRateWarning fail_rate] else [])))"

text \<open>The test \<^verbatim>\<open>resp.get("Fault") is not None\<close> on a response that is a dict.\<close>

definition has_fault :: "json \<Rightarrow> bool" where
  "has_fault resp = (py_get resp ''Fault'' \<noteq> Inr JNull)"

text \<open>
  The rank of a status code: \<^verbatim>\<open>try: self.ups_status_codes[code].get("status_rank")\<close>,
  \<^verbatim>\<open>except: 0\<close>.
\<close>

definition status_rank_of :: "json \<Rightarrow> int" where
  "status_rank_of latest_status =
     (case py_bind (py_dict_item ups_status_codes latest_status) (\<lambda>entry. py_get entry ''status_rank'') of
        Inr (JNum n) \<Rightarrow> n
      | _ \<Rightarrow> 0)"

text \<open>
  The body of the loop over the packages of one shipment, in two parts: the package's
  latest activity with the rank of its status code (the first element when the
  activity is a list, else the activity itself), and the comparison with the best rank
  so far. The state is the variable \<^verbatim>\<open>overall_activity\<close> (\<open>None\<close> while it is unbound)
  and \<^verbatim>\<open>overall_rank\<close>.
\<close>

definition package_latest :: "json \<Rightarrow> py_error + (json \<times> int)" where
  "package_latest tracking_num =
     py_bind (py_get tracking_num ''Activity'') (\<lambda>tracking_activity.
     py_bind (case tracking_activity of JList xs \<Rightarrow> py_first xs | _ \<Rightarrow> Inr tracking_activity)
       (\<lambda>latest_activity.
     py_bind (py_get latest_activity ''Status'') (\<lambda>status.
     py_bind (py_get status ''Type'') (\<lambda>latest_status.
       Inr (latest_activity, status_rank_of latest_status)))))"

definition keep_higher :: "json option \<times> int \<Rightarrow> json \<times> int \<Rightarrow> json option \<times> int" where
  "keep_higher st latest =
     (case (st, latest) of
        ((overall_activity, overall_rank), (latest_activity, status_rank)) \<Rightarrow>
          if status_rank > overall_rank then (Some latest_activity, status_rank)
          else (overall_activity, overall_rank))"

definition rank_step :: "json \<Rightarrow> json option \<times> int \<Rightarrow> py_error + (json option \<times> int)" where
  "rank_step tracking_num st =
     py_bind (package_latest tracking_num) (\<lambda>latest. Inr (keep_higher st latest))"

fun rank_loop :: "json list \<Rightarrow> json option \<times> int \<Rightarrow> py_error + (json option \<times> int)" where
  "rank_loop [] st = Inr st"
| "rank_loop (tracking_num # rest) st =
     (case rank_step tracking_num st of Inl e \<Rightarrow> Inl e | Inr st' \<Rightarrow> rank_loop rest st')"

text \<open>
  The activity location of one record: everything in the \<^verbatim>\<open>try\<close>, None on any
  exception.
\<close>

definition ups_location :: "json \<Rightarrow> json" where
  "ups_location package_activity =
     try_except
       (py_bind (py_item package_activity ''ActivityLocation'') (\<lambda>loc.
        py_bind (py_item loc ''Address'') (\<lambda>activity_location.
        py_bind (py_get_default activity_location ''City'' (JStr ''---'')) (\<lambda>city.
        py_bind (py_get_default activity_location ''StateProvinceCode'' (JStr ''---''))
          (\<lambda>state_province_code.
        py_bind (py_get_default activity_location ''CountryCode'' (JStr ''---'')) (\<lambda>country_code.
        py_bind (py_join '', '' [country_code, state_province_code, city]) py_upper))))))
       JNull"

text \<open>
  One response of \<^verbatim>\<open>_simplify_ups\<close>. \<^verbatim>\<open>overall_activity\<close> is a variable of the
  function, so it keeps its value from one response to the next; reading it while it
  is unbound raises UnboundLocalError.
\<close>

definition simplify_ups_resp :: "json \<Rightarrow> json option \<Rightarrow> py_error + (pydict \<times> json option)" where
  "simplify_ups_resp resp oa =
     py_bind (py_get resp ''TrackResponse'') (\<lambda>tr.
     py_bind (py_get tr ''Shipment'') (\<lambda>shipment.
     py_bind (py_get shipment ''Package'') (\<lambda>package_data.
     py_bind (py_get shipment ''InquiryNumber'') (\<lambda>inquiry.
     py_bind (py_get inquiry ''Value'') (\<lambda>tracking_number.
     py_bind
       (case package_data of
          JList packages \<Rightarrow>
            py_bind (rank_loop packages (oa, 0)) (\<lambda>st.
              case fst st of None \<Rightarrow> Inl UnboundLocalError | Some a \<Rightarrow> Inr a)
        | _ \<Rightarrow> py_get package_data ''Activity'')
       (\<lambda>overall_activity.
     py_bind (case overall_activity of JList xs \<Rightarrow> py_first xs | _ \<Rightarrow> Inr overall_activity)
       (\<lambda>package_activity.
     let ups_status = [(''checkpointDate'', PJson JNull), (''trackingNumber'', PJson JNull),
                       (''checkpointLocation'', PJson JNull), (''trackingStatus'', PJson JNull),
                       (''checkpointStatusMessage'', PJson JNull)] in
     py_bind (py_get package_activity ''Date'') (\<lambda>date.
     py_bind (py_get package_activity ''Time'') (\<lambda>time.
     py_bind (py_add date time) (\<lambda>activity_datetime_str.
     py_bind (py_strptime activity_datetime_str ''%Y%m%d%H%M%S'') (\<lambda>checkpoint.
     let ups_status = AList.update ''checkpointDate'' (PDatetime checkpoint) ups_status;
         ups_status = AList.update ''trackingNumber'' (PJson tracking_number) ups_status;
         ups_status = AList.update ''checkpointLocation'' (PJson (ups_location package_activity))
                        ups_status in
     py_bind (py_item package_activity ''Status'') (\<lambda>status.
     py_bind (py_item status ''Type'') (\<lambda>ups_code.
     py_bind (py_dict_item ups_status_codes ups_code) (\<lambda>entry.
     py_bind (py_get_default entry ''general_status'' (JStr ''Unknown'')) (\<lambda>general.
     let ups_status = AList.update ''trackingStatus'' (PJson general) ups_status in
     py_bind (py_get package_activity ''Status'') (\<lambda>status'.
     py_bind (py_get status' ''Description'') (\<lambda>description.
       Inr (AList.update ''checkpointStatusMessage'' (PJson description) ups_status,
            Some overall_activity))))))))))))))))))"

fun simplify_ups_loop :: "json list \<Rightarrow> json option \<Rightarrow> pydict list \<Rightarrow> py_error + pydict list" where
  "simplify_ups_loop [] oa stan_tracking_results = Inr stan_tracking_results"
| "simplify_ups_loop (resp # rest) oa stan_tracking_results =
     (case simplify_ups_resp resp oa of
        Inl e \<Rightarrow> Inl e
      | Inr (ups_status, oa') \<Rightarrow> simplify_ups_loop rest oa' (stan_tracking_results @ [ups_status]))"

definition p_simplify_ups :: "json list \<Rightarrow> py_error + pydict list" where
  "p_simplify_ups tracking_results = simplify_ups_loop tracking_results None []"

text \<open>
  \<^verbatim>\<open>track_ups\<close>: what was printed, and the exception or the list returned.
\<close>

definition track_ups ::
  "ups \<Rightarrow> (nat \<Rightarrow> json \<Rightarrow> py_error + json) \<Rightarrow> string list \<Rightarrow> bool
     \<Rightarrow> diagnostic list \<times> (py_error + tracking_output)" where
  "track_ups self net tracking_list simplify =
     (let ups_requests = p_create_ups_request self tracking_list in
      case p_track_ups net ups_requests of
        Inl e \<Rightarrow> ([], Inl e)
      | Inr (tracking_results, printed) \<Rightarrow>
          if simplify then
            (case p_simplify_ups tracking_results of
               Inl e \<Rightarrow> (printed, Inl e)
             | Inr stan_tracking_results \<Rightarrow> (printed, Inr (Simplified stan_tracking_results)))
          else (printed, Inr (RawResults tracking_results)))"

section \<open>Carrier B: USPS\<close>

record usps =
  usps_username :: string
  company_name :: string

definition usps_status_codes :: "(string \<times> string) list" where
  "usps_status_codes =
    [(''Delivered'', ''Delivered''),
     (''Delivered to Agent'', ''Delivered''),
     (''Alert'', ''Exception''),
     (''In Transit'', ''In Transit''),
     (''Out for Delivery'', ''Out for Delivery''),
     (''Pre-Shipment'', ''Pre-Shipment''),
     (''Delivery Attempt'', ''Delivered - Delivery Attempt''),
     (''Available for Pickup'', ''Delivered - Available for Pickup'')]"

text \<open>
  \<^verbatim>\<open>_create_usps_requests\<close>: one request per chunk, the text of the source's
  f-string with its line breaks and indentation. The address of the host is a
  parameter.
\<close>

definition dq :: string where
  "dq = [CHR 0x22]"

definition line_break :: string where
  "line_break = CHR 0x0A # replicate 16 (CHR '' '')"

definition p_create_usps_requests :: "usps \<Rightarrow> string \<Rightarrow> string list list \<Rightarrow> string list" where
  "p_create_usps_requests self ip_address tracking_chunks =
     map (\<lambda>chunk.
            let xml_string = concat (map (\<lambda>c. ''<TrackID ID='' @ dq @ c @ dq @ ''/>'') chunk);
                payload =
                  line_break @ ''<TrackFieldRequest USERID='' @ dq @ usps_username self @ dq @ ''>''
                  @ line_break @ ''<Revision>1</Revision>''
                  @ line_break @ ''<ClientIp>'' @ ip_address @ ''</ClientIp>''
                  @ line_break @ ''<SourceId>'' @ company_name self @ ''</SourceId>''
                  @ line_break @ xml_string
                  @ line_break @ ''</TrackFieldRequest>''
                  @ CHR 0x0A # replicate 12 (CHR '' '')
            in ''https://secure.shippingapis.com/ShippingAPI.dll?API=TrackV2&XML='' @ payload)
         tracking_chunks"

text \<open>
  One request of \<^verbatim>\<open>_track_usps\<close>: the decoded document, its \<^verbatim>\<open>TrackResponse\<close>, the
  \<^verbatim>\<open>TrackInfo\<close> below it, and what \<^verbatim>\<open>extend\<close> appends for that value.
\<close>

definition usps_fetch_one :: "(nat \<Rightarrow> string \<Rightarrow> py_error + json) \<Rightarrow> nat \<Rightarrow> string \<Rightarrow> py_error + json list" where
  "usps_fetch_one net i request =
     py_bind (net i request) (\<lambda>doc.
     py_bind (py_get doc ''TrackResponse'') (\<lambda>tr.
     py_bind (py_get tr ''TrackInfo'') py_iter))"

text \<open>
  The loop is inside a \<^verbatim>\<open>try\<close> with a bare \<^verbatim>\<open>except\<close>: any exception prints the
  request in flight and returns what was collected.
\<close>

fun usps_fetch_loop ::
  "(nat \<Rightarrow> string \<Rightarrow> py_error + json) \<Rightarrow> nat \<Rightarrow> string list \<Rightarrow> json list
     \<Rightarrow> json list \<times> diagnostic list" where
  "usps_fetch_loop net i [] tracking_results = (tracking_results, [])"
| "usps_fetch_loop net i (request # rest) tracking_results =
     (case usps_fetch_one net i request of
        Inl e \<Rightarrow> (tracking_results, [FailedAtRequest request])
      | Inr json_resp \<Rightarrow> usps_fetch_loop net (Suc i) rest (tracking_results @ json_resp))"

definition p_track_usps ::
  "(nat \<Rightarrow> string \<Rightarrow> py_error + json) \<Rightarrow> string list \<Rightarrow> json list \<times> diagnostic list" where
  "p_track_usps net usps_requests = usps_fetch_loop net 0 usps_requests []"

text \<open>
  One entry of \<^verbatim>\<open>_simplify_usps\<close>: \<open>Inr None\<close> is \<^verbatim>\<open>continue\<close>. \<^verbatim>\<open>track_summary\<close>
  is bound in the first \<^verbatim>\<open>try\<close> and read again in the second. The lookup of the
  status category is outside every \<^verbatim>\<open>try\<close>.
\<close>

definition usps_checkpoint_date :: "json \<Rightarrow> pyval" where
  "usps_checkpoint_date i =
     try_except
       (py_bind (py_get i ''TrackSummary'') (\<lambda>track_summary.
        py_bind (py_get track_summary ''EventTime'') (\<lambda>event_time.
        py_bind (py_get track_summary ''EventDate'') (\<lambda>event_date.
        py_bind (py_add event_date (JStr '' '')) (\<lambda>event_date_sp.
        py_bind (py_add event_date_sp event_time) (\<lambda>event_dt.
        py_bind (py_strptime event_dt ''%B %d, %Y %I:%M %p'') (\<lambda>checkpoint_date.
          Inr (PDatetime checkpoint_date))))))))
       (PJson JNull)"

definition usps_checkpoint_location :: "json \<Rightarrow> json" where
  "usps_checkpoint_location i =
     try_except
       (py_bind (py_get i ''TrackSummary'') (\<lambda>track_summary.
        py_bind (py_get track_summary ''EventCity'') (\<lambda>city.
        py_bind (py_upper city) (\<lambda>event_city.
        py_bind (py_get track_summary ''EventState'') (\<lambda>state.
        py_bind (py_upper state) (\<lambda>event_state.
          py_join '', '' [event_city, event_state, JStr ''US'']))))))
       JNull"

definition usps_status_message :: "json \<Rightarrow> json" where
  "usps_status_message i =
     try_except
       (py_bind (py_get i ''Status'') (\<lambda>status.
        py_bind (py_add status (JStr '' - '')) (\<lambda>status_dash.
        py_bind (py_get i ''StatusSummary'') (\<lambda>status_summary.
          py_add status_dash status_summary))))
       JNull"

definition simplify_usps_entry :: "json \<Rightarrow> py_error + pydict option" where
  "simplify_usps_entry i =
     (case py_get i ''@ID'' of
        Inl e \<Rightarrow> Inr None
      | Inr tracking_number \<Rightarrow>
          (let checkpoint_date = usps_checkpoint_date i;
               checkpoint_location = usps_checkpoint_location i;
               checkpoint_status_message = usps_status_message i
           in py_bind (py_get i ''StatusCategory'') (\<lambda>category.
              py_bind (py_dict_get usps_status_codes category) (\<lambda>status.
                Inr (Some [(''trackingNumber'', PJson tracking_number),
                           (''trackingStatus'',
                              PJson (case status of None \<Rightarrow> JNull | Some s \<Rightarrow> JStr s)),
                           (''checkpointDate'', checkpoint_date),
                           (''checkpointLocation'', PJson checkpoint_location),
                           (''checkpointStatusMessage'', PJson checkpoint_status_message)])))))"

fun simplify_usps_loop :: "json list \<Rightarrow> pydict list \<Rightarrow> py_error + pydict list" where
  "simplify_usps_loop [] stan_tracking_results = Inr stan_tracking_results"
| "simplify_usps_loop (i # rest) stan_tracking_results =
     (case simplify_usps_entry i of
        Inl e \<Rightarrow> Inl e
      | Inr None \<Rightarrow> simplify_usps_loop rest stan_tracking_results
      | Inr (Some stantrack_usps) \<Rightarrow>
          simplify_usps_loop rest (stan_tracking_results @ [stantrack_usps]))"

definition p_simplify_usps :: "json list \<Rightarrow> py_error + pydict list" where
  "p_simplify_usps tracking_results = simplify_usps_loop tracking_results []"

text \<open>
  \<^verbatim>\<open>track_usps\<close>: the requests it builds, then what was printed and the exception or
  the list returned.
\<close>

definition track_usps_requests :: "usps \<Rightarrow> string \<Rightarrow> string list \<Rightarrow> py_error + string list" where
  "track_usps_requests self ip_address tracking_list =
     py_bind (chunk_list 10 tracking_list) (\<lambda>tracking_chunks.
       Inr (p_create_usps_requests self ip_address tracking_chunks))"

definition track_usps ::
  "usps \<Rightarrow> string \<Rightarrow> (nat \<Rightarrow> string \<Rightarrow> py_error + json) \<Rightarrow> string list \<Rightarrow> bool
     \<Rightarrow> diagnostic list \<times> (py_error + tracking_output)" where
  "track_usps self ip_address net tracking_list simplify =
     (case track_usps_requests self ip_address tracking_list of
        Inl e \<Rightarrow> ([], Inl e)
      | Inr usps_requests \<Rightarrow>
          (case p_track_usps net usps_requests of
             (tracking_results, printed) \<Rightarrow>
               if simplify then
                 (case p_simplify_usps tracking_results of
                    Inl e \<Rightarrow> (printed, Inl e)
                  | Inr stan_tracking_results \<Rightarrow> (printed, Inr (Simplified stan_tracking_results)))
               else (printed, Inr (RawResults tracking_results))))"

section \<open>The selection among packages, in the specification's words\<close>

text \<open>
  The specification selects, among the latest events of the packages with their ranks,
  the event with the highest rank, the first one seen among equals.
\<close>

definition highest_rank_first :: "(json \<times> int) list \<Rightarrow> (json \<times> int) option" where
  "highest_rank_first events =
     find (\<lambda>e. \<forall>e' \<in> set events. snd e' \<le> snd e) events"

section \<open>The shape of the carriers' documents\<close>

text \<open>
  The documents the two carriers answer with, as the normalizers read them: a UPS
  response with its shipment, package and activity records, and a USPS track entry
  inside its response document.
\<close>

definition ups_address :: "string \<Rightarrow> string \<Rightarrow> string \<Rightarrow> json" where
  "ups_address city region country =
     JObj [(''City'', JStr city), (''StateProvinceCode'', JStr region),
           (''CountryCode'', JStr country)]"

definition ups_activity :: "json \<Rightarrow> json \<Rightarrow> string \<Rightarrow> string \<Rightarrow> string \<Rightarrow> json" where
  "ups_activity address code description date time =
     JObj [(''ActivityLocation'', JObj [(''Address'', address)]),
           (''Status'', JObj [(''Type'', code), (''Description'', JStr description)]),
           (''Date'', JStr date), (''Time'', JStr time)]"

definition ups_package :: "json \<Rightarrow> json" where
  "ups_package activity = JObj [(''Activity'', activity)]"

definition ups_response :: "string \<Rightarrow> json \<Rightarrow> json" where
  "ups_response tracking_number package_data =
     JObj [(''TrackResponse'',
            JObj [(''Shipment'',
                   JObj [(''InquiryNumber'', JObj [(''Value'', JStr tracking_number)]),
                         (''Package'', package_data)])])]"

definition usps_track_summary :: "string \<Rightarrow> string \<Rightarrow> string \<Rightarrow> string \<Rightarrow> json" where
  "usps_track_summary date time city state =
     JObj [(''EventTime'', JStr time), (''EventDate'', JStr date),
           (''EventCity'', JStr city), (''EventState'', JStr state)]"

definition usps_track_info :: "string \<Rightarrow> json \<Rightarrow> string \<Rightarrow> string \<Rightarrow> json \<Rightarrow> json" where
  "usps_track_info tracking_number category status summary track_summary =
     JObj [(''@ID'', JStr tracking_number), (''Status'', JStr status),
           (''StatusCategory'', category), (''StatusSummary'', JStr summary),
           (''TrackSummary'', track_summary)]"

definition usps_document :: "json \<Rightarrow> json" where
  "usps_document track_info = JObj [(''TrackResponse'', JObj [(''TrackInfo'', track_info)])]"

section \<open>Example documents\<close>

text \<open>
  Concrete documents used where a statement is evaluated: a UPS activity at
  Louisville, KY on 2024-01-01 09:30:00 with the status code \<open>D\<close>, the same event with a
  status code the table does not list, and a USPS track entry for the same event.
\<close>

definition louisville :: json where
  "louisville = ups_address ''Louisville'' ''KY'' ''US''"

definition delivered_activity :: json where
  "delivered_activity = ups_activity louisville (JStr ''D'') ''DELIVERED'' ''20240101'' ''093000''"

definition unlisted_activity :: json where
  "unlisted_activity = ups_activity louisville (JStr ''ZZ'') ''UNLISTED'' ''20240102'' ''101500''"

definition usps_delivered_entry :: json where
  "usps_delivered_entry =
     usps_track_info ''9400100000000000000001'' (JStr ''Delivered'') ''Delivered''
       ''Your item was delivered.''
       (usps_track_summary ''January 1, 2024'' ''09:30 AM'' ''Louisville'' ''KY'')"

definition delivered_ups_response :: json where
  "delivered_ups_response = ups_response ''1Z999AA10123456784'' (ups_package delivered_activity)"

definition delivered_ups_record :: pydict where
  "delivered_ups_record =
     [(''checkpointDate'', PDatetime (Datetime 2024 1 1 9 30 0)),
      (''trackingNumber'', PJson (JStr ''1Z999AA10123456784'')),
      (''checkpointLocation'', PJson (JStr ''US, KY, LOUISVILLE'')),
      (''trackingStatus'', PJson (JStr ''Delivered'')),
      (''checkpointStatusMessage'', PJson (JStr ''DELIVERED''))]"

definition delivered_usps_record :: pydict where
  "delivered_usps_record =
     [(''trackingNumber'', PJson (JStr ''9400100000000000000001'')),
      (''trackingStatus'', PJson (JStr ''Delivered'')),
      (''checkpointDate'', PDatetime (Datetime 2024 1 1 9 30 0)),
      (''checkpointLocation'', PJson (JStr ''LOUISVILLE, KY, US'')),
      (''checkpointStatusMessage'', PJson (JStr ''Delivered - Your item was delivered.''))]"

text \<open>
  Credentials, and networks for the examples: one whose second request raises, and
  two whose second or twentieth request is answered with the carrier's error document
  while every other request is answered with two track entries.
\<close>

definition example_ups :: ups where
  "example_ups = \<lparr>ups_username = ''user'', ups_password = ''password'', ups_license = ''license''\<rparr>"

definition example_usps :: usps where
  "example_usps = \<lparr>usps_username = ''user'', company_name = ''company''\<rparr>"

definition ups_second_request_raises :: "nat \<Rightarrow> json \<Rightarrow> py_error + json" where
  "ups_second_request_raises i request =
     (if i = 1 then Inl TransportError else Inr delivered_ups_response)"

definition usps_second_request_raises :: "nat \<Rightarrow> string \<Rightarrow> py_error + json" where
  "usps_second_request_raises i request =
     (if i = 1 then Inl TransportError else Inr (usps_document (JList [usps_delivered_entry])))"

definition usps_error_document :: json where
  "usps_error_document =
     JObj [(''Error'', JObj [(''Number'', JStr ''80040B1A''),
                            (''Description'', JStr ''Authorization failure.'')])]"

definition usps_transit_entry :: json where
  "usps_transit_entry =
     usps_track_info ''9400100000000000000002'' (JStr ''In Transit'') ''In Transit''
       ''Your item is in transit.''
       (usps_track_summary ''January 2, 2024'' ''10:15 AM'' ''Memphis'' ''TN'')"

definition usps_second_request_faults :: "nat \<Rightarrow> string \<Rightarrow> py_error + json" where
  "usps_second_request_faults i request =
     (if i = 1 then Inr usps_error_document
      else Inr (usps_document (JList [usps_delivered_entry, usps_transit_entry])))"

definition usps_twentieth_request_faults :: "nat \<Rightarrow> string \<Rightarrow> py_error + json" where
  "usps_twentieth_request_faults i request =
     (if i = 19 then Inr usps_error_document
      else Inr (usps_document (JList [usps_delivered_entry, usps_transit_entry])))"

text \<open>A UPS fault document, and the answers to twenty requests, the first ones faults.\<close>

definition ups_fault :: json where
  "ups_fault = JObj [(''Fault'', JObj [(''faultstring'', JStr ''An exception has been raised'')])]"

definition twenty_answers :: "nat \<Rightarrow> json list" where
  "twenty_answers faults = replicate faults ups_fault @ replicate (20 - faults) delivered_ups_response"

definition twenty_numbers :: "string list" where
  "twenty_numbers = replicate 20 ''1Z999AA10123456784''"

text \<open>A network that answers the \<open>i\<close>-th request with the \<open>i\<close>-th of the given bodies.\<close>

definition answer_with :: "json list \<Rightarrow> nat \<Rightarrow> json \<Rightarrow> py_error + json" where
  "answer_with bodies i request = (if i < length bodies then Inr (bodies ! i) else Inl TransportError)"

text \<open>
  A second shipment whose packages, a list, all carry the unlisted status code; and a
  USPS network that answers a request for one identifier: the document holds the track
  entry itself, not a list of entries.
\<close>

definition unlisted_ups_response :: json where
  "unlisted_ups_response =
     ups_response ''1Z999AA10123456785'' (JList [ups_package unlisted_activity])"

definition usps_single_entry_answer :: "nat \<Rightarrow> string \<Rightarrow> py_error + json" where
  "usps_single_entry_answer i request = Inr (usps_document usps_delivered_entry)"

section \<open>Chunking\<close>

text \<open>
  The start indices of the chunks: how many there are, where each starts, and that the
  slices taken at them put the list together again.
\<close>

lemma range_step_upper: "0 < k \<Longrightarrow> n \<le> i + length (range_step i n k) * k"
proof (induction i n k rule: range_step.induct)
  case (1 i n k)
  show ?case
  proof (cases "n \<le> i")
    case True
    then show ?thesis by (simp add: range_step.simps[of i n k])
  next
    case False
    with 1 have "n \<le> (i + k) + length (range_step (i + k) n k) * k" by simp
    with False 1(2) show ?thesis
      by (simp add: range_step.simps[of i n k])
  qed
qed

lemma range_step_lower: "0 < k \<Longrightarrow> i < n \<Longrightarrow> i + length (range_step i n k) * k < n + k"
proof (induction i n k rule: range_step.induct)
  case (1 i n k)
  show ?case
  proof (cases "i + k < n")
    case True
    with 1 have "(i + k) + length (range_step (i + k) n k) * k < n + k" by simp
    with 1(2,3) show ?thesis
      by (simp add: range_step.simps[of i n k])
  next
    case False
    then have "range_step (i + k) n k = []" by (simp add: range_step.simps[of "i + k" n k])
    with 1(2,3) show ?thesis
      by (simp add: range_step.simps[of i n k])
  qed
qed

lemma range_step_empty: "range_step i 0 k = []"
  by (simp add: range_step.simps[of i 0 k])

lemma range_step_nth:
  "0 < k \<Longrightarrow> j < length (range_step i n k) \<Longrightarrow> range_step i n k ! j = i + j * k"
proof (induction i n k arbitrary: j rule: range_step.induct)
  case (1 i n k)
  show ?case
  proof (cases "n \<le> i")
    case True
    with 1(3) show ?thesis by (simp add: range_step.simps[of i n k])
  next
    case False
    show ?thesis
    proof (cases j)
      case 0
      with False 1(2) show ?thesis by (simp add: range_step.simps[of i n k])
    next
      case (Suc j')
      with 1(3) False 1(2) have "j' < length (range_step (i + k) n k)"
        by (simp add: range_step.simps[of i n k])
      with 1(1)[of j'] False 1(2) have "range_step (i + k) n k ! j' = (i + k) + j' * k" by simp
      with Suc False 1(2) show ?thesis by (simp add: range_step.simps[of i n k])
    qed
  qed
qed

lemma concat_chunks_from:
  "0 < k \<Longrightarrow> concat (map (\<lambda>i. slice xs i (i + k)) (range_step i (length xs) k)) = drop i xs"
proof (induction i "length xs" k rule: range_step.induct)
  case (1 i k)
  show ?case
  proof (cases "length xs \<le> i")
    case True
    then show ?thesis by (simp add: range_step.simps[of i "length xs" k])
  next
    case False
    with 1 have ih: "concat (map (\<lambda>i. slice xs i (i + k)) (range_step (i + k) (length xs) k)) = drop (i + k) xs"
      by simp
    have "take k (drop i xs) @ drop (i + k) xs = drop i xs"
      by (metis add.commute append_take_drop_id drop_drop)
    with ih False 1(2) show ?thesis
      by (simp add: range_step.simps[of i "length xs" k] slice_def)
  qed
qed

lemma range_step_ceiling:
  assumes "0 < k"
  shows "int (length (range_step 0 n k)) = \<lceil>real n / real k\<rceil>"
proof (cases "n = 0")
  case True
  then show ?thesis by (simp add: range_step_empty)
next
  case False
  let ?L = "length (range_step 0 n k)"
  have up: "n \<le> ?L * k" using range_step_upper[OF assms, of n 0] by simp
  have lo: "?L * k < n + k" using range_step_lower[OF assms, of 0 n] False by simp
  have kr: "0 < real k" using assms by simp
  have "real n \<le> real ?L * real k" using up by (metis of_nat_le_iff of_nat_mult)
  then have a: "real n / real k \<le> real ?L" using kr by (simp add: pos_divide_le_eq)
  have "real ?L * real k < real n + real k" using lo by (metis of_nat_less_iff of_nat_mult of_nat_add)
  then have "(real ?L - 1) * real k < real n" by (simp add: algebra_simps)
  then have b: "real ?L - 1 < real n / real k" using kr by (simp add: pos_less_divide_eq)
  show ?thesis using a b by (intro ceiling_unique[symmetric]) simp_all
qed

lemma last_chunk_len:
  fixes k :: nat
  assumes "0 < k" "j * k < n" "n \<le> j * k + k"
  shows "min k (n - j * k) = (if n mod k = 0 then k else n mod k)"
proof -
  obtain r where r: "n = j * k + r" "0 < r" "r \<le> k"
    using assms by (metis add.commute le_add_diff_inverse less_imp_le_nat nat_add_left_cancel_le zero_less_diff add_diff_cancel_left')
  show ?thesis
  proof (cases "r = k")
    case True
    with r show ?thesis by simp
  next
    case False
    with r have "r < k" by simp
    with r show ?thesis by simp
  qed
qed

text \<open>
  C8. For a list of length \<open>n\<close> and a chunk size \<open>k > 0\<close>, \<open>chunk_list\<close> returns
  \<open>\<lceil>n / k\<rceil>\<close> chunks; every chunk but the last has length \<open>k\<close>, the last has length
  \<open>n mod k\<close> when that is not zero and \<open>k\<close> otherwise; the chunks concatenated in order
  are the list. The requests of \<open>track_usps\<close> are built from the chunks of size 10.
\<close>

theorem chunk_list_spec:
  assumes "0 < k"
  shows "\<exists>chunks. chunk_list k xs = Inr chunks
           \<and> int (length chunks) = \<lceil>real (length xs) / real_of_int k\<rceil>
           \<and> concat chunks = xs
           \<and> (\<forall>j < length chunks. length (chunks ! j) =
                 (if Suc j < length chunks then nat k
                  else if length xs mod nat k = 0 then nat k else length xs mod nat k))
         \<and> (\<exists>tracking_chunks. chunk_list 10 tracking_list = Inr tracking_chunks
                \<and> track_usps_requests self ip_address tracking_list
                    = Inr (p_create_usps_requests self ip_address tracking_chunks))"
proof -
  let ?k = "nat k"
  let ?n = "length xs"
  let ?r = "range_step 0 ?n ?k"
  let ?chunks = "map (\<lambda>i. slice xs i (i + ?k)) ?r"
  have k: "0 < ?k" using assms by simp
  have c: "chunk_list k xs = Inr ?chunks" using assms by (simp add: chunk_list_def)
  have len: "int (length ?chunks) = \<lceil>real ?n / real_of_int k\<rceil>"
    using range_step_ceiling[OF k, of ?n] assms by simp
  have cat: "concat ?chunks = xs" using concat_chunks_from[OF k, of xs 0] by simp
  have each: "length (?chunks ! j) =
                 (if Suc j < length ?chunks then ?k
                  else if ?n mod ?k = 0 then ?k else ?n mod ?k)" if j: "j < length ?chunks" for j
  proof -
    have jl: "j < length ?r" using j by simp
    have nth: "?r ! j = j * ?k" using range_step_nth[OF k jl] by simp
    have l: "length (?chunks ! j) = min ?k (?n - j * ?k)"
      using jl nth by (simp add: slice_def min.commute)
    have npos: "0 < ?n" using jl by (cases "?n = 0") (simp_all add: range_step_empty)
    have lo: "length ?r * ?k < ?n + ?k" using range_step_lower[OF k npos] by simp
    have up: "?n \<le> length ?r * ?k" using range_step_upper[OF k, of ?n 0] by simp
    show ?thesis
    proof (cases "Suc j < length ?chunks")
      case True
      then have "Suc (Suc j) \<le> length ?r" by simp
      then have "Suc (Suc j) * ?k \<le> length ?r * ?k" by (rule mult_le_mono1)
      then have "j * ?k + ?k + ?k \<le> length ?r * ?k" by (simp only: mult_Suc add.commute add.left_commute)
      with lo have "j * ?k + ?k < ?n" by linarith
      then have "?k \<le> ?n - j * ?k" by linarith
      then have "min ?k (?n - j * ?k) = ?k" by (rule min_absorb1)
      with l True show ?thesis by (simp only: if_True)
    next
      case False
      with jl have e: "length ?r = Suc j" by simp
      from lo e have a: "j * ?k < ?n" by simp
      from up e have b: "?n \<le> j * ?k + ?k" by simp
      show ?thesis using l False last_chunk_len[OF k a b] by simp
    qed
  qed
  have b: "\<exists>tracking_chunks. chunk_list 10 tracking_list = Inr tracking_chunks
                \<and> track_usps_requests self ip_address tracking_list
                    = Inr (p_create_usps_requests self ip_address tracking_chunks)"
    by (simp add: track_usps_requests_def chunk_list_def py_bind_def)
  show ?thesis using c len cat each b by blast
qed

theorem chunk_list_spec_witness:
  "(0::int) < 2 \<and> chunk_list 2 ''abcde'' = Inr [''ab'', ''cd'', ''e'']
     \<and> \<lceil>real (length ''abcde'') / real_of_int 2\<rceil> = 3"
proof -
  have h: "(0::int) < 2" by simp
  from chunk_list_spec[OF h, of "''abcde''"] obtain chunks where
    c: "chunk_list 2 ''abcde'' = Inr chunks"
    and l: "int (length chunks) = \<lceil>real (length ''abcde'') / real_of_int 2\<rceil>" by blast
  have v: "chunk_list 2 ''abcde'' = Inr [''ab'', ''cd'', ''e'']"
    by (simp add: chunk_list_def slice_def range_step.simps)
  with c have "chunks = [''ab'', ''cd'', ''e'']" by simp
  with l have "\<lceil>real (length ''abcde'') / real_of_int 2\<rceil> = 3" by simp
  with h v show ?thesis by blast
qed

section \<open>The empty tracking list of Carrier A\<close>

text \<open>
  C9. \<open>track_ups\<close> with an empty tracking list returns no list: the fail rate divides
  by the number of payloads, which is zero, and the call raises ZeroDivisionError,
  whatever the network and the \<open>simplify\<close> flag.
\<close>

theorem track_ups_empty_raises:
  "track_ups self net [] simplify = ([], Inl ZeroDivisionError)"
  by (simp add: track_ups_def p_create_ups_request_def p_track_ups_def)

section \<open>Sequencing\<close>

lemma py_bind_Inr: "py_bind m f = Inr y \<longleftrightarrow> (\<exists>x. m = Inr x \<and> f x = Inr y)"
  by (cases m) (simp_all add: py_bind_def)

lemma py_bind_Inl: "py_bind m f = Inl e \<longleftrightarrow> (m = Inl e \<or> (\<exists>x. m = Inr x \<and> f x = Inl e))"
  by (cases m) (simp_all add: py_bind_def)

section \<open>The example documents, normalized\<close>

lemma delivered_ups_example: "p_simplify_ups [delivered_ups_response] = Inr [delivered_ups_record]"
  by code_simp

lemma delivered_usps_example: "p_simplify_usps [usps_delivered_entry] = Inr [delivered_usps_record]"
  by code_simp

section \<open>The fields of a normalized record\<close>

lemma simplify_ups_resp_keys:
  assumes "simplify_ups_resp resp oa = Inr (r, oa')"
  shows "map fst r = [''checkpointDate'', ''trackingNumber'', ''checkpointLocation'',
                      ''trackingStatus'', ''checkpointStatusMessage'']"
  using assms unfolding simplify_ups_resp_def Let_def py_bind_Inr
  by (auto simp: AList.update_keys)

lemma simplify_ups_loop_keys:
  assumes "simplify_ups_loop rs oa acc = Inr recs"
    and "\<forall>r \<in> set acc. map fst r = [''checkpointDate'', ''trackingNumber'', ''checkpointLocation'',
                      ''trackingStatus'', ''checkpointStatusMessage'']"
  shows "\<forall>r \<in> set recs. map fst r = [''checkpointDate'', ''trackingNumber'', ''checkpointLocation'',
                      ''trackingStatus'', ''checkpointStatusMessage'']"
  using assms
proof (induction rs arbitrary: oa acc)
  case Nil
  then show ?case by simp
next
  case (Cons resp rs)
  from Cons.prems(1) obtain r oa' where
    one: "simplify_ups_resp resp oa = Inr (r, oa')"
    and rest: "simplify_ups_loop rs oa' (acc @ [r]) = Inr recs"
    by (auto split: sum.splits)
  have "\<forall>x \<in> set (acc @ [r]). map fst x = [''checkpointDate'', ''trackingNumber'', ''checkpointLocation'',
                      ''trackingStatus'', ''checkpointStatusMessage'']"
    using Cons.prems(2) simplify_ups_resp_keys[OF one] by simp
  from Cons.IH[OF rest this] show ?case .
qed

lemma simplify_usps_entry_keys:
  assumes "simplify_usps_entry i = Inr (Some r)"
  shows "map fst r = [''trackingNumber'', ''trackingStatus'', ''checkpointDate'',
                      ''checkpointLocation'', ''checkpointStatusMessage'']"
  using assms unfolding simplify_usps_entry_def Let_def
  by (auto simp: py_bind_Inr split: sum.splits)

lemma simplify_usps_loop_keys:
  assumes "simplify_usps_loop es acc = Inr recs"
    and "\<forall>r \<in> set acc. map fst r = [''trackingNumber'', ''trackingStatus'', ''checkpointDate'',
                      ''checkpointLocation'', ''checkpointStatusMessage'']"
  shows "\<forall>r \<in> set recs. map fst r = [''trackingNumber'', ''trackingStatus'', ''checkpointDate'',
                      ''checkpointLocation'', ''checkpointStatusMessage'']"
  using assms
proof (induction es arbitrary: acc)
  case Nil
  then show ?case by simp
next
  case (Cons i es)
  show ?case
  proof (cases "simplify_usps_entry i")
    case (Inl e)
    with Cons.prems(1) show ?thesis by simp
  next
    case (Inr ro)
    show ?thesis
    proof (cases ro)
      case None
      with Inr Cons.prems(1) have "simplify_usps_loop es acc = Inr recs" by simp
      from Cons.IH[OF this Cons.prems(2)] show ?thesis .
    next
      case (Some r)
      with Inr Cons.prems(1) have rest: "simplify_usps_loop es (acc @ [r]) = Inr recs" by simp
      have "\<forall>x \<in> set (acc @ [r]). map fst x = [''trackingNumber'', ''trackingStatus'', ''checkpointDate'',
                      ''checkpointLocation'', ''checkpointStatusMessage'']"
        using Cons.prems(2) simplify_usps_entry_keys Inr Some by simp
      from Cons.IH[OF rest this] show ?thesis .
    qed
  qed
qed

text \<open>
  C10. Every record that either normalizer emits has exactly the five fields
  trackingNumber, trackingStatus, checkpointDate, checkpointLocation and
  checkpointStatusMessage, each once.
\<close>

theorem normalized_record_fields:
  "(p_simplify_ups tracking_results = Inr recs \<longrightarrow>
      (\<forall>r \<in> set recs. length r = 5 \<and> distinct (map fst r)
         \<and> set (map fst r) = {''trackingNumber'', ''trackingStatus'', ''checkpointDate'',
                               ''checkpointLocation'', ''checkpointStatusMessage''}))
   \<and> (p_simplify_usps entries = Inr recs' \<longrightarrow>
      (\<forall>r \<in> set recs'. length r = 5 \<and> distinct (map fst r)
         \<and> set (map fst r) = {''trackingNumber'', ''trackingStatus'', ''checkpointDate'',
                               ''checkpointLocation'', ''checkpointStatusMessage''}))"
proof (intro conjI impI ballI)
  fix r
  assume "p_simplify_ups tracking_results = Inr recs" and r: "r \<in> set recs"
  then have "map fst r = [''checkpointDate'', ''trackingNumber'', ''checkpointLocation'',
                           ''trackingStatus'', ''checkpointStatusMessage'']"
    using simplify_ups_loop_keys[of tracking_results None "[]" recs]
    by (simp add: p_simplify_ups_def)
  then have k: "length (map fst r) = 5 \<and> distinct (map fst r)
        \<and> set (map fst r) = {''trackingNumber'', ''trackingStatus'', ''checkpointDate'',
                               ''checkpointLocation'', ''checkpointStatusMessage''}"
    by (simp only:) auto
  then show "length r = 5" "distinct (map fst r)" "set (map fst r) = {''trackingNumber'', ''trackingStatus'', ''checkpointDate'',
                               ''checkpointLocation'', ''checkpointStatusMessage''}"
    by simp_all
next
  fix r
  assume "p_simplify_usps entries = Inr recs'" and r: "r \<in> set recs'"
  then have "map fst r = [''trackingNumber'', ''trackingStatus'', ''checkpointDate'',
                      ''checkpointLocation'', ''checkpointStatusMessage'']"
    using simplify_usps_loop_keys[of entries "[]" recs']
    by (simp add: p_simplify_usps_def)
  then have k: "length (map fst r) = 5 \<and> distinct (map fst r)
        \<and> set (map fst r) = {''trackingNumber'', ''trackingStatus'', ''checkpointDate'',
                               ''checkpointLocation'', ''checkpointStatusMessage''}"
    by (simp only:) auto
  then show "length r = 5" "distinct (map fst r)" "set (map fst r) = {''trackingNumber'', ''trackingStatus'', ''checkpointDate'',
                               ''checkpointLocation'', ''checkpointStatusMessage''}"
    by simp_all
qed

theorem normalized_record_fields_witness:
  "p_simplify_ups [delivered_ups_response] = Inr [delivered_ups_record]
   \<and> p_simplify_usps [usps_delivered_entry] = Inr [delivered_usps_record]
   \<and> set (map fst delivered_ups_record)
       = {''trackingNumber'', ''trackingStatus'', ''checkpointDate'',
          ''checkpointLocation'', ''checkpointStatusMessage''}
   \<and> set (map fst delivered_usps_record)
       = {''trackingNumber'', ''trackingStatus'', ''checkpointDate'',
          ''checkpointLocation'', ''checkpointStatusMessage''}"
  using normalized_record_fields[of "[delivered_ups_response]" "[delivered_ups_record]"
      "[usps_delivered_entry]" "[delivered_usps_record]"]
    delivered_ups_example delivered_usps_example
  by simp

section \<open>Fetching\<close>

text \<open>
  Carrier B's loop up to the first request that raises; Carrier A's loop when a
  request raises, and when every request is answered with a document.
\<close>

lemma usps_fetch_loop_abort:
  assumes "length ents = length pre"
    and "\<forall>j < length pre. usps_fetch_one net (i + j) (pre ! j) = Inr (ents ! j)"
    and "usps_fetch_one net (i + length pre) r = Inl e"
  shows "usps_fetch_loop net i (pre @ r # post) acc = (acc @ concat ents, [FailedAtRequest r])"
  using assms
proof (induction pre arbitrary: i acc ents)
  case Nil
  then show ?case by simp
next
  case (Cons q pre)
  from Cons.prems(1) obtain en ents' where ents: "ents = en # ents'" "length ents' = length pre"
    by (cases ents) auto
  from Cons.prems(2) ents have q: "usps_fetch_one net i q = Inr en" by auto
  have rest: "\<forall>j < length pre. usps_fetch_one net (Suc i + j) (pre ! j) = Inr (ents' ! j)"
  proof (intro allI impI)
    fix j assume "j < length pre"
    then have "Suc j < length (q # pre)" by simp
    with Cons.prems(2) have "usps_fetch_one net (i + Suc j) ((q # pre) ! Suc j) = Inr (ents ! Suc j)"
      by blast
    with ents show "usps_fetch_one net (Suc i + j) (pre ! j) = Inr (ents' ! j)" by simp
  qed
  have last: "usps_fetch_one net (Suc i + length pre) r = Inl e" using Cons.prems(3) by simp
  from Cons.IH[OF ents(2) rest last, of "acc @ en"] q ents show ?case by simp
qed

lemma ups_fetch_loop_raises:
  assumes "\<forall>j < length pre. \<exists>kvs. net (i + j) (pre ! j) = Inr (JObj kvs)"
    and "\<forall>q \<in> set pre. \<exists>inq. py_bind (py_get q ''TrackRequest'') (\<lambda>t. py_get t ''InquiryNumber'') = Inr inq"
    and "net (i + length pre) r = Inl e"
  shows "ups_fetch_loop net i (pre @ r # post) st = Inl e"
  using assms
proof (induction pre arbitrary: i st)
  case Nil
  then show ?case by (cases st) simp
next
  case (Cons q pre)
  obtain res failed where st: "st = (res, failed)" by (cases st)
  from Cons.prems(1) obtain kvs where q: "net i q = Inr (JObj kvs)" by fastforce
  from Cons.prems(2) obtain inq where inq: "py_bind (py_get q ''TrackRequest'') (\<lambda>t. py_get t ''InquiryNumber'') = Inr inq"
    by auto
  have rest: "\<forall>j < length pre. \<exists>kvs. net (Suc i + j) (pre ! j) = Inr (JObj kvs)"
  proof (intro allI impI)
    fix j assume "j < length pre"
    then have "Suc j < length (q # pre)" by simp
    with Cons.prems(1) have "\<exists>kvs. net (i + Suc j) ((q # pre) ! Suc j) = Inr (JObj kvs)" by blast
    then show "\<exists>kvs. net (Suc i + j) (pre ! j) = Inr (JObj kvs)" by simp
  qed
  have others: "\<forall>q \<in> set pre. \<exists>inq. py_bind (py_get q ''TrackRequest'') (\<lambda>t. py_get t ''InquiryNumber'') = Inr inq"
    using Cons.prems(2) by simp
  have last: "net (Suc i + length pre) r = Inl e" using Cons.prems(3) by simp
  note ih = Cons.IH[OF rest others last]
  show ?case using q inq ih st by (simp add: py_get_def)
qed

lemma created_request_inquiry:
  assumes "q \<in> set (p_create_ups_request self tracking_list)"
  shows "\<exists>inq. py_bind (py_get q ''TrackRequest'') (\<lambda>t. py_get t ''InquiryNumber'') = Inr inq"
  using assms by (auto simp: p_create_ups_request_def py_bind_def py_get_def)

lemma ups_fetch_loop_answered:
  assumes "length bodies = length reqs"
    and "\<forall>j < length reqs. net (i + j) (reqs ! j) = Inr (bodies ! j)"
    and "\<forall>b \<in> set bodies. \<exists>kvs. b = JObj kvs"
    and "\<forall>q \<in> set reqs. \<exists>inq. py_bind (py_get q ''TrackRequest'') (\<lambda>t. py_get t ''InquiryNumber'') = Inr inq"
  shows "\<exists>failed'. ups_fetch_loop net i reqs (res, failed)
             = Inr (res @ filter (\<lambda>b. \<not> has_fault b) bodies, failed @ failed')
           \<and> length failed' = length (filter has_fault bodies)"
  using assms
proof (induction reqs arbitrary: i bodies res failed)
  case Nil
  then show ?case by simp
next
  case (Cons q reqs)
  from Cons.prems(1) obtain b bodies' where bodies: "bodies = b # bodies'" "length bodies' = length reqs"
    by (cases bodies) auto
  from Cons.prems(2) bodies have q: "net i q = Inr b" by auto
  from Cons.prems(3) bodies obtain kvs where b: "b = JObj kvs" by auto
  from Cons.prems(4) obtain inq where inq: "py_bind (py_get q ''TrackRequest'') (\<lambda>t. py_get t ''InquiryNumber'') = Inr inq"
    by auto
  have rest: "\<forall>j < length reqs. net (Suc i + j) (reqs ! j) = Inr (bodies' ! j)"
  proof (intro allI impI)
    fix j assume "j < length reqs"
    then have "Suc j < length (q # reqs)" by simp
    with Cons.prems(2) have "net (i + Suc j) ((q # reqs) ! Suc j) = Inr (bodies ! Suc j)" by blast
    with bodies show "net (Suc i + j) (reqs ! j) = Inr (bodies' ! j)" by simp
  qed
  have objs: "\<forall>b \<in> set bodies'. \<exists>kvs. b = JObj kvs" using Cons.prems(3) bodies by simp
  have inqs: "\<forall>q \<in> set reqs. \<exists>inq. py_bind (py_get q ''TrackRequest'') (\<lambda>t. py_get t ''InquiryNumber'') = Inr inq"
    using Cons.prems(4) by simp
  note ih = Cons.IH[OF bodies(2) rest objs inqs]
  obtain fault where fault: "py_get b ''Fault'' = Inr fault" using b by (simp add: py_get_def)
  show ?case
  proof (cases "fault = JNull")
    case True
    then have nf: "\<not> has_fault b" using fault by (simp add: has_fault_def)
    from ih[of "res @ [b]" failed] obtain failed' where
      "ups_fetch_loop net (Suc i) reqs (res @ [b], failed)
         = Inr ((res @ [b]) @ filter (\<lambda>b. \<not> has_fault b) bodies', failed @ failed')"
      "length failed' = length (filter has_fault bodies')" by blast
    then show ?thesis using q fault True nf bodies by simp
  next
    case False
    then have hf: "has_fault b" using fault by (simp add: has_fault_def)
    from ih[of res "failed @ [inq]"] obtain failed' where
      f: "ups_fetch_loop net (Suc i) reqs (res, failed @ [inq])
         = Inr (res @ filter (\<lambda>b. \<not> has_fault b) bodies', (failed @ [inq]) @ failed')"
      "length failed' = length (filter has_fault bodies')" by blast
    have "ups_fetch_loop net i (q # reqs) (res, failed)
            = Inr (res @ filter (\<lambda>b. \<not> has_fault b) bodies, failed @ (inq # failed'))"
      using q fault False hf bodies inq f(1) by simp
    moreover have "length (inq # failed') = length (filter has_fault bodies)"
      using f(2) hf bodies by simp
    ultimately show ?thesis by blast
  qed
qed

lemma usps_fetch_loop_printed:
  "length (snd (usps_fetch_loop net i requests acc)) \<le> 1
   \<and> (\<forall>d \<in> set (snd (usps_fetch_loop net i requests acc)).
         \<exists>j e. j < length requests \<and> d = FailedAtRequest (requests ! j)
           \<and> usps_fetch_one net (i + j) (requests ! j) = Inl e
           \<and> (\<forall>k < j. \<exists>ents. usps_fetch_one net (i + k) (requests ! k) = Inr ents))"
proof (induction requests arbitrary: i acc)
  case Nil
  then show ?case by simp
next
  case (Cons request rest)
  show ?case
  proof (cases "usps_fetch_one net i request")
    case (Inl e)
    then have p: "snd (usps_fetch_loop net i (request # rest) acc) = [FailedAtRequest request]"
      by simp
    have len: "length (snd (usps_fetch_loop net i (request # rest) acc)) \<le> 1"
      unfolding p by simp
    have "\<exists>j e'. j < length (request # rest)
            \<and> FailedAtRequest request = FailedAtRequest ((request # rest) ! j)
            \<and> usps_fetch_one net (i + j) ((request # rest) ! j) = Inl e'
            \<and> (\<forall>k < j. \<exists>ents. usps_fetch_one net (i + k) ((request # rest) ! k) = Inr ents)"
      using Inl by (intro exI[of _ 0] exI[of _ e]) simp
    then have "\<forall>d \<in> set (snd (usps_fetch_loop net i (request # rest) acc)).
         \<exists>j e. j < length (request # rest) \<and> d = FailedAtRequest ((request # rest) ! j)
           \<and> usps_fetch_one net (i + j) ((request # rest) ! j) = Inl e
           \<and> (\<forall>k < j. \<exists>ents. usps_fetch_one net (i + k) ((request # rest) ! k) = Inr ents)"
      unfolding p by simp
    with len show ?thesis by (rule conjI)
  next
    case (Inr ents)
    then have p: "snd (usps_fetch_loop net i (request # rest) acc)
                    = snd (usps_fetch_loop net (Suc i) rest (acc @ ents))" by simp
    note ih = Cons.IH[of "Suc i" "acc @ ents"]
    have "\<exists>j e. j < length (request # rest) \<and> d = FailedAtRequest ((request # rest) ! j)
           \<and> usps_fetch_one net (i + j) ((request # rest) ! j) = Inl e
           \<and> (\<forall>k < j. \<exists>ents. usps_fetch_one net (i + k) ((request # rest) ! k) = Inr ents)"
      if d: "d \<in> set (snd (usps_fetch_loop net (Suc i) rest (acc @ ents)))" for d
    proof -
      from ih d obtain j e where j: "j < length rest" "d = FailedAtRequest (rest ! j)"
        "usps_fetch_one net (Suc i + j) (rest ! j) = Inl e"
        "\<forall>k < j. \<exists>ents. usps_fetch_one net (Suc i + k) (rest ! k) = Inr ents" by blast
      have before: "\<exists>ents. usps_fetch_one net (i + k) ((request # rest) ! k) = Inr ents"
        if "k < Suc j" for k
      proof (cases k)
        case 0
        then show ?thesis using Inr by simp
      next
        case (Suc k')
        with that have "k' < j" by simp
        with j(4) Suc show ?thesis by simp
      qed
      have "Suc j < length (request # rest)" using j(1) by simp
      moreover have "d = FailedAtRequest ((request # rest) ! Suc j)" using j(2) by simp
      moreover have "usps_fetch_one net (i + Suc j) ((request # rest) ! Suc j) = Inl e"
        using j(3) by simp
      ultimately show ?thesis using before by blast
    qed
    then show ?thesis unfolding p using ih by blast
  qed
qed

lemma has_fault_examples: "has_fault ups_fault" "\<not> has_fault delivered_ups_response"
  by (simp_all add: has_fault_def ups_fault_def delivered_ups_response_def ups_response_def py_get_def)

lemma twenty_answers_objects: "\<forall>b \<in> set (twenty_answers n). \<exists>kvs. b = JObj kvs"
  by (auto simp: twenty_answers_def ups_fault_def delivered_ups_response_def ups_response_def)

text \<open>
  C7. When a request of Carrier B's loop raises (transport or decoding), the loop stops
  and returns the entries collected from the requests before it, and prints the
  request that was in flight. Carrier A's loop has no guard: the exception leaves
  \<open>_track_ups\<close> and \<open>track_ups\<close>.
\<close>

theorem transport_failure:
  "(length ents = length pre
      \<and> (\<forall>j < length pre. usps_fetch_one net j (pre ! j) = Inr (ents ! j))
      \<and> net (length pre) r = Inl e
    \<longrightarrow> p_track_usps net (pre @ r # post) = (concat ents, [FailedAtRequest r]))
   \<and> ((\<forall>j < length tpre. \<exists>kvs. net' j (p_create_ups_request self (tpre @ t # tpost) ! j) = Inr (JObj kvs))
      \<and> net' (length tpre) (p_create_ups_request self (tpre @ t # tpost) ! length tpre) = Inl e'
    \<longrightarrow> p_track_ups net' (p_create_ups_request self (tpre @ t # tpost)) = Inl e'
        \<and> track_ups self net' (tpre @ t # tpost) simplify = ([], Inl e'))"
proof (intro conjI impI)
  assume h: "length ents = length pre
      \<and> (\<forall>j < length pre. usps_fetch_one net j (pre ! j) = Inr (ents ! j))
      \<and> net (length pre) r = Inl e"
  then have "usps_fetch_one net (0 + length pre) r = Inl e"
    by (simp add: usps_fetch_one_def py_bind_def)
  moreover from h have "\<forall>j < length pre. usps_fetch_one net (0 + j) (pre ! j) = Inr (ents ! j)" by simp
  ultimately show "p_track_usps net (pre @ r # post) = (concat ents, [FailedAtRequest r])"
    using usps_fetch_loop_abort[of ents pre net 0 r e post "[]"] h
    by (simp add: p_track_usps_def)
next
  let ?reqs = "p_create_ups_request self (tpre @ t # tpost)"
  let ?pre = "p_create_ups_request self tpre"
  let ?post = "p_create_ups_request self tpost"
  assume h: "(\<forall>j < length tpre. \<exists>kvs. net' j (?reqs ! j) = Inr (JObj kvs))
      \<and> net' (length tpre) (?reqs ! length tpre) = Inl e'"
  obtain rq where split: "?reqs = ?pre @ rq # ?post"
    by (simp add: p_create_ups_request_def)
  have len: "length ?pre = length tpre" by (simp add: p_create_ups_request_def)
  have a: "\<forall>j < length ?pre. \<exists>kvs. net' (0 + j) (?pre ! j) = Inr (JObj kvs)"
    using h split len by (simp add: nth_append)
  have b: "\<forall>q \<in> set ?pre. \<exists>inq. py_bind (py_get q ''TrackRequest'') (\<lambda>t. py_get t ''InquiryNumber'') = Inr inq"
    using created_request_inquiry by blast
  have c: "net' (0 + length ?pre) rq = Inl e'"
    using h split len by (simp add: nth_append)
  have loop: "ups_fetch_loop net' 0 ?reqs ([], []) = Inl e'"
    using ups_fetch_loop_raises[OF a b c, of ?post "([], [])"] split by simp
  then show p: "p_track_ups net' ?reqs = Inl e'" by (simp add: p_track_ups_def)
  then show "track_ups self net' (tpre @ t # tpost) simplify = ([], Inl e')"
    by (simp add: track_ups_def)
qed

theorem transport_failure_witness:
  "usps_fetch_one usps_second_request_raises 0 ''first'' = Inr [usps_delivered_entry]
   \<and> usps_second_request_raises 1 ''second'' = Inl TransportError
   \<and> p_track_usps usps_second_request_raises [''first'', ''second'', ''third'']
       = ([usps_delivered_entry], [FailedAtRequest ''second''])
   \<and> ups_second_request_raises 0 (p_create_ups_request example_ups [''1Z999AA10123456784'', ''1Z2''] ! 0)
       = Inr delivered_ups_response
   \<and> ups_second_request_raises 1 (p_create_ups_request example_ups [''1Z999AA10123456784'', ''1Z2''] ! 1)
       = Inl TransportError
   \<and> track_ups example_ups ups_second_request_raises [''1Z999AA10123456784'', ''1Z2''] True
       = ([], Inl TransportError)"
proof -
  have a: "usps_fetch_one usps_second_request_raises 0 ''first'' = Inr [usps_delivered_entry]"
    by (simp add: usps_fetch_one_def usps_second_request_raises_def usps_document_def py_bind_def
        py_get_def py_iter_def)
  have b: "usps_second_request_raises 1 ''second'' = Inl TransportError"
    by (simp add: usps_second_request_raises_def)
  have c: "ups_second_request_raises 0 (p_create_ups_request example_ups [''1Z999AA10123456784'', ''1Z2''] ! 0)
       = Inr delivered_ups_response"
    by (simp add: ups_second_request_raises_def)
  have d: "ups_second_request_raises 1 (p_create_ups_request example_ups [''1Z999AA10123456784'', ''1Z2''] ! 1)
       = Inl TransportError"
    by (simp add: ups_second_request_raises_def)
  have obj: "\<exists>kvs. delivered_ups_response = JObj kvs"
    by (simp add: delivered_ups_response_def ups_response_def)
  note t = transport_failure[of "[[usps_delivered_entry]]" "[''first'']" usps_second_request_raises
      "''second''" TransportError "[''third'']" "[''1Z999AA10123456784'']" ups_second_request_raises
      example_ups "''1Z2''" "[]" TransportError True]
  from t a b have u: "p_track_usps usps_second_request_raises [''first'', ''second'', ''third'']
       = ([usps_delivered_entry], [FailedAtRequest ''second''])" by simp
  from t c d obj have v: "track_ups example_ups ups_second_request_raises [''1Z999AA10123456784'', ''1Z2''] True
       = ([], Inl TransportError)" by simp
  show ?thesis using a b c d u v by simp
qed

text \<open>
  C5, as the code has it. Carrier A only, for a batch of at least one payload in which
  every request is answered with a document: the fetcher returns the responses without
  a fault, in order, and prints the warning exactly when the failed count divided by
  the number of payloads is above 5/100; two faults in twenty print it, one fault in
  twenty does not. Carrier B's fetcher computes no fail rate: it prints at most one
  line, and that line names a request of the batch whose fetch raised, the first such
  request.
\<close>

theorem ups_fail_rate_warning:
  assumes "tracking_list \<noteq> []"
    and "length bodies = length tracking_list"
    and "\<forall>j < length tracking_list. net j (p_create_ups_request self tracking_list ! j) = Inr (bodies ! j)"
    and "\<forall>b \<in> set bodies. \<exists>kvs. b = JObj kvs"
  shows "\<exists>printed.
           p_track_ups net (p_create_ups_request self tracking_list)
             = Inr (filter (\<lambda>b. \<not> has_fault b) bodies, printed)
         \<and> (printed \<noteq> [] \<longleftrightarrow>
              (of_nat (length (filter has_fault bodies)) :: rat) / of_nat (length tracking_list) > 5 / 100)
         \<and> (printed \<noteq> [] \<longrightarrow>
              printed = [FailRateWarning (of_nat (length (filter has_fault bodies))
                                            / of_nat (length tracking_list))])
         \<and> (length tracking_list = 20 \<and> length (filter has_fault bodies) = 2 \<longrightarrow> printed \<noteq> [])
         \<and> (length tracking_list = 20 \<and> length (filter has_fault bodies) = 1 \<longrightarrow> printed = [])
         \<and> length (snd (p_track_usps usps_net usps_requests)) \<le> 1
         \<and> (\<forall>d \<in> set (snd (p_track_usps usps_net usps_requests)).
               \<exists>i e. i < length usps_requests \<and> d = FailedAtRequest (usps_requests ! i)
                 \<and> usps_fetch_one usps_net i (usps_requests ! i) = Inl e
                 \<and> (\<forall>k < i. \<exists>ents. usps_fetch_one usps_net k (usps_requests ! k) = Inr ents))"
proof -
  let ?reqs = "p_create_ups_request self tracking_list"
  let ?rate = "(of_nat (length (filter has_fault bodies)) :: rat) / of_nat (length tracking_list)"
  let ?printed = "if ?rate > 5 / 100 then [FailRateWarning ?rate] else []"
  have len: "length ?reqs = length tracking_list" by (simp add: p_create_ups_request_def)
  have a: "length bodies = length ?reqs" using assms(2) len by simp
  have b: "\<forall>j < length ?reqs. net (0 + j) (?reqs ! j) = Inr (bodies ! j)" using assms(3) len by simp
  have d: "\<forall>q \<in> set ?reqs. \<exists>inq. py_bind (py_get q ''TrackRequest'') (\<lambda>t. py_get t ''InquiryNumber'') = Inr inq"
    using created_request_inquiry by blast
  from ups_fetch_loop_answered[OF a b assms(4) d, of "[]" "[]"] obtain failed' where
    loop: "ups_fetch_loop net 0 ?reqs ([], []) = Inr (filter (\<lambda>b. \<not> has_fault b) bodies, failed')"
    and fl: "length failed' = length (filter has_fault bodies)" by auto
  have ne: "length ?reqs \<noteq> 0" using assms(1) len by simp
  have run: "p_track_ups net ?reqs = Inr (filter (\<lambda>b. \<not> has_fault b) bodies, ?printed)"
    using loop ne fl len by (simp add: p_track_ups_def Let_def)
  have iff: "?printed \<noteq> [] \<longleftrightarrow> ?rate > 5 / 100" by simp
  have shape: "?printed \<noteq> [] \<longrightarrow> ?printed = [FailRateWarning ?rate]" by simp
  have two: "length tracking_list = 20 \<and> length (filter has_fault bodies) = 2 \<longrightarrow> ?printed \<noteq> []"
    by simp
  have one: "length tracking_list = 20 \<and> length (filter has_fault bodies) = 1 \<longrightarrow> ?printed = []"
    by simp
  have usps: "length (snd (p_track_usps usps_net usps_requests)) \<le> 1
         \<and> (\<forall>d \<in> set (snd (p_track_usps usps_net usps_requests)).
               \<exists>i e. i < length usps_requests \<and> d = FailedAtRequest (usps_requests ! i)
                 \<and> usps_fetch_one usps_net i (usps_requests ! i) = Inl e
                 \<and> (\<forall>k < i. \<exists>ents. usps_fetch_one usps_net k (usps_requests ! k) = Inr ents))"
    using usps_fetch_loop_printed[of usps_net 0 usps_requests "[]"]
    by (simp add: p_track_usps_def)
  from run iff shape two one usps show ?thesis
    by (intro exI[of _ ?printed] conjI) (rule conjunct1, assumption | rule conjunct2, assumption | assumption)+
qed

theorem ups_fail_rate_warning_witness:
  "twenty_numbers \<noteq> [] \<and> length (twenty_answers 2) = length twenty_numbers
   \<and> length (filter has_fault (twenty_answers 2)) = 2
   \<and> p_track_ups (answer_with (twenty_answers 2)) (p_create_ups_request example_ups twenty_numbers)
       = Inr (replicate 18 delivered_ups_response, [FailRateWarning (1 / 10)])
   \<and> length (filter has_fault (twenty_answers 1)) = 1
   \<and> p_track_ups (answer_with (twenty_answers 1)) (p_create_ups_request example_ups twenty_numbers)
       = Inr (replicate 19 delivered_ups_response, [])
   \<and> snd (p_track_usps usps_second_request_faults [''first'', ''second'', ''third''])
       = [FailedAtRequest ''second'']
   \<and> (\<exists>i e. i < length [''first'', ''second'', ''third'']
          \<and> FailedAtRequest ''second'' = FailedAtRequest ([''first'', ''second'', ''third''] ! i)
          \<and> usps_fetch_one usps_second_request_faults i ([''first'', ''second'', ''third''] ! i) = Inl e
          \<and> (\<forall>k < i. \<exists>ents. usps_fetch_one usps_second_request_faults k
                                   ([''first'', ''second'', ''third''] ! k) = Inr ents))"
proof -
  have ne: "twenty_numbers \<noteq> []" by (simp add: twenty_numbers_def)
  have len: "length (twenty_answers n) = length twenty_numbers" if "n \<le> 20" for n
    using that by (simp add: twenty_answers_def twenty_numbers_def)
  have net: "\<forall>j < length twenty_numbers.
               answer_with (twenty_answers n) j (p_create_ups_request example_ups twenty_numbers ! j)
                 = Inr (twenty_answers n ! j)" if "n \<le> 20" for n
    using len[OF that] by (simp add: answer_with_def)
  have cnt: "length (filter has_fault (twenty_answers n)) = n" for n
    by (simp add: twenty_answers_def has_fault_examples)
  have ok: "filter (\<lambda>b. \<not> has_fault b) (twenty_answers n) = replicate (20 - n) delivered_ups_response" for n
    by (simp add: twenty_answers_def has_fault_examples)
  have n20: "length twenty_numbers = 20" by (simp add: twenty_numbers_def)
  have l2: "length (twenty_answers 2) = length twenty_numbers" using len[of 2] by simp
  have n2: "\<forall>j < length twenty_numbers.
               answer_with (twenty_answers 2) j (p_create_ups_request example_ups twenty_numbers ! j)
                 = Inr (twenty_answers 2 ! j)" using net[of 2] by simp
  have o2: "\<forall>b \<in> set (twenty_answers 2). \<exists>kvs. b = JObj kvs" by (rule twenty_answers_objects)
  have l1: "length (twenty_answers 1) = length twenty_numbers" using len[of 1] by simp
  have n1: "\<forall>j < length twenty_numbers.
               answer_with (twenty_answers 1) j (p_create_ups_request example_ups twenty_numbers ! j)
                 = Inr (twenty_answers 1 ! j)" using net[of 1] by simp
  have o1: "\<forall>b \<in> set (twenty_answers 1). \<exists>kvs. b = JObj kvs" by (rule twenty_answers_objects)
  from ups_fail_rate_warning[where tracking_list = twenty_numbers and bodies = "twenty_answers 2"
      and net = "answer_with (twenty_answers 2)" and self = example_ups
      and usps_net = usps_second_request_faults
      and usps_requests = "[''first'', ''second'', ''third'']", OF ne l2 n2 o2]
  obtain printed where
    r: "p_track_ups (answer_with (twenty_answers 2)) (p_create_ups_request example_ups twenty_numbers)
          = Inr (filter (\<lambda>b. \<not> has_fault b) (twenty_answers 2), printed)"
    and p: "printed \<noteq> [] \<longrightarrow> printed = [FailRateWarning (of_nat (length (filter has_fault (twenty_answers 2)))
                                            / of_nat (length twenty_numbers))]"
    and q: "length twenty_numbers = 20 \<and> length (filter has_fault (twenty_answers 2)) = 2 \<longrightarrow> printed \<noteq> []"
    and named: "\<forall>d \<in> set (snd (p_track_usps usps_second_request_faults [''first'', ''second'', ''third''])).
       \<exists>i e. i < length [''first'', ''second'', ''third'']
          \<and> d = FailedAtRequest ([''first'', ''second'', ''third''] ! i)
          \<and> usps_fetch_one usps_second_request_faults i ([''first'', ''second'', ''third''] ! i) = Inl e
          \<and> (\<forall>k < i. \<exists>ents. usps_fetch_one usps_second_request_faults k
                                   ([''first'', ''second'', ''third''] ! k) = Inr ents)"
    by blast
  have printed_usps: "snd (p_track_usps usps_second_request_faults [''first'', ''second'', ''third''])
       = [FailedAtRequest ''second'']"
    by code_simp
  from named have usps: "\<exists>i e. i < length [''first'', ''second'', ''third'']
          \<and> FailedAtRequest ''second'' = FailedAtRequest ([''first'', ''second'', ''third''] ! i)
          \<and> usps_fetch_one usps_second_request_faults i ([''first'', ''second'', ''third''] ! i) = Inl e
          \<and> (\<forall>k < i. \<exists>ents. usps_fetch_one usps_second_request_faults k
                                   ([''first'', ''second'', ''third''] ! k) = Inr ents)"
    unfolding printed_usps by (simp only: list.set ball_simps singleton_iff simp_thms)
  from q n20 cnt[of 2] have "printed \<noteq> []" by simp
  with p n20 cnt[of 2] have "printed = [FailRateWarning (1 / 10)]" by simp
  with r ok[of 2] have two:
    "p_track_ups (answer_with (twenty_answers 2)) (p_create_ups_request example_ups twenty_numbers)
       = Inr (replicate 18 delivered_ups_response, [FailRateWarning (1 / 10)])" by simp
  from ups_fail_rate_warning[where tracking_list = twenty_numbers and bodies = "twenty_answers 1"
      and net = "answer_with (twenty_answers 1)" and self = example_ups
      and usps_net = usps_second_request_faults
      and usps_requests = "[''first'', ''second'', ''third'']", OF ne l1 n1 o1]
  obtain printed' where
    r': "p_track_ups (answer_with (twenty_answers 1)) (p_create_ups_request example_ups twenty_numbers)
          = Inr (filter (\<lambda>b. \<not> has_fault b) (twenty_answers 1), printed')"
    and q': "length twenty_numbers = 20 \<and> length (filter has_fault (twenty_answers 1)) = 1 \<longrightarrow> printed' = []"
    by blast
  from q' n20 cnt[of 1] have "printed' = []" by simp
  with r' ok[of 1] have one:
    "p_track_ups (answer_with (twenty_answers 1)) (p_create_ups_request example_ups twenty_numbers)
       = Inr (replicate 19 delivered_ups_response, [])" by simp
  have ups: "twenty_numbers \<noteq> [] \<and> length (twenty_answers 2) = length twenty_numbers
   \<and> length (filter has_fault (twenty_answers 2)) = 2
   \<and> p_track_ups (answer_with (twenty_answers 2)) (p_create_ups_request example_ups twenty_numbers)
       = Inr (replicate 18 delivered_ups_response, [FailRateWarning (1 / 10)])
   \<and> length (filter has_fault (twenty_answers 1)) = 1
   \<and> p_track_ups (answer_with (twenty_answers 1)) (p_create_ups_request example_ups twenty_numbers)
       = Inr (replicate 19 delivered_ups_response, [])"
    using ne len[of 2] cnt[of 2] cnt[of 1] two one by simp
  from ups printed_usps usps show ?thesis by blast
qed

text \<open>
  C5 as stated, for every batch fetch, fails for Carrier B: of twenty requests exactly
  one meets a carrier fault, the last, and a diagnostic is printed.
\<close>

theorem usps_one_fault_in_twenty_prints:
  "p_track_usps usps_twentieth_request_faults (replicate 20 ''request'')
     = (concat (replicate 19 [usps_delivered_entry, usps_transit_entry]),
        [FailedAtRequest ''request''])"
  by code_simp

section \<open>The normalizers on documents of the carriers' shape\<close>

lemma ups_single_package_date:
  "simplify_ups_resp (ups_response tn (ups_package (ups_activity address code description date time))) oa
     = py_bind (strptime (date @ time) ''%Y%m%d%H%M%S'') (\<lambda>checkpoint.
         py_bind (py_dict_item ups_status_codes code) (\<lambda>entry.
         py_bind (py_get_default entry ''general_status'' (JStr ''Unknown'')) (\<lambda>general.
           Inr ([(''checkpointDate'', PDatetime checkpoint),
                 (''trackingNumber'', PJson (JStr tn)),
                 (''checkpointLocation'',
                    PJson (ups_location (ups_activity address code description date time))),
                 (''trackingStatus'', PJson general),
                 (''checkpointStatusMessage'', PJson (JStr description))],
                Some (ups_activity address code description date time)))))"
  by (simp add: simplify_ups_resp_def ups_response_def ups_package_def ups_activity_def
      py_bind_def py_get_def py_item_def py_add_def py_strptime_def Let_def
      split: sum.splits)

lemma usps_entry_record:
  "simplify_usps_entry (usps_track_info tn (JStr category) status summary
                          (usps_track_summary date time city state))
     = Inr (Some [(''trackingNumber'', PJson (JStr tn)),
                  (''trackingStatus'',
                     PJson (case map_of usps_status_codes category of None \<Rightarrow> JNull | Some s \<Rightarrow> JStr s)),
                  (''checkpointDate'',
                     (case strptime (date @ '' '' @ time) ''%B %d, %Y %I:%M %p'' of
                        Inl e \<Rightarrow> PJson JNull | Inr d \<Rightarrow> PDatetime d)),
                  (''checkpointLocation'', PJson (JStr (upper city @ '', '' @ upper state @ '', US''))),
                  (''checkpointStatusMessage'', PJson (JStr (status @ '' - '' @ summary)))])"
  by (simp add: simplify_usps_entry_def usps_track_info_def usps_track_summary_def
      usps_checkpoint_date_def usps_checkpoint_location_def usps_status_message_def
      py_bind_def py_get_def py_add_def py_strptime_def py_dict_get_def py_upper_def py_join_def
      try_except_def Let_def split: sum.splits)

section \<open>Checkpoint timestamps\<close>








section \<open>The status vocabulary\<close>

text \<open>
  C1 says that a status code the table does not list becomes \<open>Unknown\<close> for Carrier A.
  The code looks the code up with \<^verbatim>\<open>self.ups_status_codes[ups_code]\<close> before the
  \<^verbatim>\<open>.get("general_status", "Unknown")\<close>, so the unlisted code \<open>ZZ\<close> raises KeyError
  and no record is emitted.
\<close>

theorem ups_unlisted_code_raises:
  "p_simplify_ups [ups_response ''1Z999AA10123456785'' (ups_package unlisted_activity)] = Inl KeyError"
  by code_simp

text \<open>
  The same for every unlisted code; no record of Carrier A ever has the status
  \<open>Unknown\<close>, since every entry of the table has a \<open>general_status\<close>. Carrier B's half
  of the claim holds: an unlisted category gives trackingStatus None.
\<close>

lemma ups_every_unlisted_code_raises:
  assumes "map_of ups_status_codes c = None"
    and "strptime (date @ time) ''%Y%m%d%H%M%S'' = Inr d"
  shows "simplify_ups_resp (ups_response tn (ups_package
           (ups_activity address (JStr c) description date time))) oa = Inl KeyError"
  using assms by (simp add: ups_single_package_date py_bind_def py_dict_item_def)

lemma ups_table_general_status:
  assumes "py_dict_item ups_status_codes code = Inr entry"
  shows "py_get_default entry ''general_status'' (JStr ''Unknown'') \<noteq> Inr (JStr ''Unknown'')"
proof -
  from assms obtain c where c: "code = JStr c" "map_of ups_status_codes c = Some entry"
    by (auto simp: py_dict_item_def split: json.splits option.splits)
  then have "entry \<in> snd ` set ups_status_codes" by (metis map_of_SomeD image_eqI snd_conv)
  then show ?thesis
    by (auto simp: ups_status_codes_def py_get_default_def)
qed

lemma ups_status_never_unknown:
  assumes "simplify_ups_resp resp oa = Inr (r, oa')"
  shows "map_of r ''trackingStatus'' \<noteq> Some (PJson (JStr ''Unknown''))"
  using assms ups_table_general_status
  unfolding simplify_ups_resp_def Let_def py_bind_Inr
  by (auto simp: AList.update_conv')

lemma usps_unlisted_category_absent:
  assumes "map_of usps_status_codes category = None"
  shows "\<exists>r. p_simplify_usps [usps_track_info tn (JStr category) status summary
                  (usps_track_summary date time city state)] = Inr [r]
             \<and> map_of r ''trackingStatus'' = Some (PJson JNull)"
  using assms by (simp add: p_simplify_usps_def usps_entry_record)

section \<open>Checkpoint locations\<close>

text \<open>
  C2 says that every location reads country, state/province, city. Carrier B's
  normalizer joins city, state and the constant \<open>US\<close> in that order: Louisville, KY
  gives \<open>LOUISVILLE, KY, US\<close>.
\<close>

theorem usps_location_city_first:
  "p_simplify_usps [usps_track_info ''9400100000000000000001'' (JStr ''Delivered'') ''Delivered''
       ''Your item was delivered.''
       (usps_track_summary ''January 1, 2024'' ''09:30 AM'' ''Louisville'' ''KY'')]
     = Inr [delivered_usps_record]
   \<and> map_of delivered_usps_record ''checkpointLocation'' = Some (PJson (JStr ''LOUISVILLE, KY, US''))"
  by code_simp

text \<open>
  The rest of the claim holds: Carrier A's location is country, state/province, city in
  upper case, with \<open>---\<close> for a missing component, and Carrier B's location is None as
  soon as the city or the state is missing.
\<close>

lemma upper_append: "upper (a @ b) = upper a @ upper b"
  by (simp add: upper_def)

lemma ups_location_format:
  "ups_location (ups_activity (ups_address city region country) code description date time)
     = JStr (upper country @ '', '' @ upper region @ '', '' @ upper city)"
  by (simp add: ups_location_def ups_activity_def ups_address_def py_bind_def py_item_def
      py_get_default_def py_join_def py_upper_def try_except_def upper_append)
     (simp add: upper_def upper_chars_def small_letters_def capital_letters_def)

lemma ups_location_louisville:
  "ups_location (ups_activity (ups_address ''Louisville'' ''KY'' ''US'') code description date time)
     = JStr ''US, KY, LOUISVILLE''"
  by (simp add: ups_location_format)
     (simp add: upper_def upper_chars_def small_letters_def capital_letters_def)

lemma ups_location_placeholder:
  "ups_location (ups_activity (JObj [(''StateProvinceCode'', JStr region), (''CountryCode'', JStr country)])
       code description date time)
     = JStr (upper country @ '', '' @ upper region @ '', ---'')"
  by (simp add: ups_location_def ups_activity_def py_bind_def py_item_def
      py_get_default_def py_join_def py_upper_def try_except_def upper_append)
     (simp add: upper_def upper_chars_def small_letters_def capital_letters_def)

lemma usps_location_missing_field:
  "usps_checkpoint_location (usps_track_info tn category status summary
       (JObj [(''EventTime'', JStr time), (''EventDate'', JStr date), (''EventCity'', JStr city)])) = JNull"
  "usps_checkpoint_location (usps_track_info tn category status summary
       (JObj [(''EventTime'', JStr time), (''EventDate'', JStr date), (''EventState'', JStr state)])) = JNull"
  by (simp_all add: usps_checkpoint_location_def usps_track_info_def py_bind_def py_get_def
      py_upper_def try_except_def)

section \<open>The packages of one shipment\<close>

text \<open>
  C3 says that for every list of packages the event with the highest rank is selected,
  the first seen among equals, an unlisted code ranking 0. The best rank starts at 0
  and the comparison is strict, so when every package has an unlisted code (or the list
  is empty) nothing is selected: \<open>overall_activity\<close> is read unbound, or still holds the
  activity of the previous response, whose date, location and status are then reported
  under the tracking number of this one.
\<close>

theorem unlisted_packages_take_previous_shipment:
  "p_simplify_ups [unlisted_ups_response] = Inl UnboundLocalError
   \<and> p_simplify_ups [delivered_ups_response, unlisted_ups_response]
     = Inr [delivered_ups_record,
            AList.update ''trackingNumber'' (PJson (JStr ''1Z999AA10123456785'')) delivered_ups_record]"
  by code_simp

text \<open>
  When some package's latest event has a listed code the claim holds: the loop is a
  fold of \<open>keep_higher\<close>, and the fold returns the first event of the highest rank;
  the record is then the one of a single package with that event. Ranks 3, 9, 7 select
  the event of rank 9 and ranks 5, 5 the first.
\<close>

lemma keep_higher_alt:
  "keep_higher st e = (if snd e > snd st then (Some (fst e), snd e) else st)"
  by (cases st; cases e) (simp add: keep_higher_def)

lemma rank_loop_fold:
  assumes "list_all2 (\<lambda>p e. package_latest p = Inr e) packages events"
  shows "rank_loop packages st = Inr (foldl keep_higher st events)"
  using assms
proof (induction packages events arbitrary: st rule: list_all2_induct)
  case Nil
  then show ?case by simp
next
  case (Cons p ps e es)
  have "rank_step p st = Inr (keep_higher st e)"
    using Cons.hyps(1) by (simp add: rank_step_def py_bind_def)
  then show ?case using Cons.IH by simp
qed

lemma highest_rank_first_skip:
  assumes "(a', r') \<in> set xs" and "snd x < r'"
  shows "highest_rank_first (x # xs) = highest_rank_first xs"
proof -
  have notmax: "\<not> (\<forall>e' \<in> set (x # xs). snd e' \<le> snd x)" using assms by fastforce
  have "find (\<lambda>e. \<forall>e' \<in> set (x # xs). snd e' \<le> snd e) xs
          = find (\<lambda>e. \<forall>e' \<in> set xs. snd e' \<le> snd e) xs"
  proof (rule find_cong[OF refl])
    fix y assume "y \<in> set xs"
    show "(\<forall>e' \<in> set (x # xs). snd e' \<le> snd y) = (\<forall>e' \<in> set xs. snd e' \<le> snd y)"
      using assms by fastforce
  qed
  then show ?thesis
    by (simp only: highest_rank_first_def find.simps notmax if_False)
qed

lemma highest_rank_first_exists:
  assumes "events \<noteq> []"
  shows "\<exists>e. highest_rank_first events = Some e"
proof -
  let ?m = "Max (snd ` set events)"
  have fin: "finite (snd ` set events)" by simp
  have ne: "snd ` set events \<noteq> {}" using assms by simp
  from Max_in[OF fin ne] obtain x where x: "x \<in> set events" "snd x = ?m" by auto
  have "\<forall>e' \<in> set events. snd e' \<le> snd x"
    using x(2) Max_ge[OF fin] by fastforce
  then have "\<exists>y \<in> set events. \<forall>e' \<in> set events. snd e' \<le> snd y"
    using x(1) by blast
  then have "find (\<lambda>e. \<forall>e' \<in> set events. snd e' \<le> snd e) events \<noteq> None"
    unfolding find_None_iff by blast
  then show ?thesis unfolding highest_rank_first_def by blast
qed

lemma foldl_keep_higher_first_highest:
  "foldl keep_higher (oa, rk) events =
     (if \<exists>e \<in> set events. rk < snd e
      then (case highest_rank_first events of Some e \<Rightarrow> (Some (fst e), snd e) | None \<Rightarrow> (oa, rk))
      else (oa, rk))"
proof (induction events arbitrary: oa rk)
  case Nil
  then show ?case by simp
next
  case (Cons x xs)
  show ?case
  proof (cases "rk < snd x")
    case True
    then have step: "keep_higher (oa, rk) x = (Some (fst x), snd x)" by (simp add: keep_higher_alt)
    have ex: "\<exists>e \<in> set (x # xs). rk < snd e" using True by simp
    show ?thesis
    proof (cases "\<exists>e \<in> set xs. snd x < snd e")
      case t2: True
      then obtain e where "(fst e, snd e) \<in> set xs" "snd x < snd e" by auto
      then have "highest_rank_first (x # xs) = highest_rank_first xs"
        by (rule highest_rank_first_skip)
      moreover from t2 have "xs \<noteq> []" by auto
      then obtain m where "highest_rank_first xs = Some m"
        using highest_rank_first_exists by blast
      ultimately show ?thesis using step Cons.IH[of "Some (fst x)" "snd x"] t2 ex by simp
    next
      case False
      then have ismax: "\<forall>e' \<in> set (x # xs). snd e' \<le> snd x" by fastforce
      have "highest_rank_first (x # xs) = Some x"
        unfolding highest_rank_first_def find.simps using ismax by (rule if_P)
      then show ?thesis using step Cons.IH[of "Some (fst x)" "snd x"] False ex by simp
    qed
  next
    case False
    then have step: "keep_higher (oa, rk) x = (oa, rk)" by (simp add: keep_higher_alt)
    show ?thesis
    proof (cases "\<exists>e \<in> set xs. rk < snd e")
      case True
      then obtain e where e: "(fst e, snd e) \<in> set xs" "rk < snd e" by auto
      with False have "snd x < snd e" by simp
      with e(1) have "highest_rank_first (x # xs) = highest_rank_first xs"
        by (rule highest_rank_first_skip)
      moreover have "\<exists>e \<in> set (x # xs). rk < snd e" using True by auto
      moreover from True have "xs \<noteq> []" by auto
      then obtain m where "highest_rank_first xs = Some m"
        using highest_rank_first_exists by blast
      ultimately show ?thesis using step Cons.IH[of oa rk] True by simp
    next
      case f2: False
      then have "\<not> (\<exists>e \<in> set (x # xs). rk < snd e)" using False by auto
      then show ?thesis using step Cons.IH[of oa rk] f2 by simp
    qed
  qed
qed

lemma rank_loop_selects_highest_first:
  assumes "list_all2 (\<lambda>p e. package_latest p = Inr e) packages events"
    and "\<exists>e \<in> set events. 0 < snd e"
  shows "\<exists>a r. highest_rank_first events = Some (a, r)
           \<and> rank_loop packages (oa, 0) = Inr (Some a, r)"
proof -
  from assms(2) have "events \<noteq> []" by auto
  from highest_rank_first_exists[OF this] obtain e where h: "highest_rank_first events = Some e"
    by blast
  have "rank_loop packages (oa, 0) = Inr (foldl keep_higher (oa, 0) events)"
    by (rule rank_loop_fold[OF assms(1)])
  also have "foldl keep_higher (oa, 0) events = (Some (fst e), snd e)"
    using foldl_keep_higher_first_highest[of oa 0 events] assms(2) h by simp
  finally show ?thesis using h by (cases e) auto
qed

lemma status_ranks:
  "status_rank_of (JStr ''X'') = 9" "status_rank_of (JStr ''RS'') = 8"
  "status_rank_of (JStr ''NA'') = 7" "status_rank_of (JStr ''MV'') = 6"
  "status_rank_of (JStr ''M'') = 5" "status_rank_of (JStr ''P'') = 4"
  "status_rank_of (JStr ''I'') = 3" "status_rank_of (JStr ''O'') = 2"
  "status_rank_of (JStr ''D'') = 1"
  by (simp_all add: status_rank_of_def ups_status_codes_def py_dict_item_def py_bind_def py_get_def)

lemma status_rank_unlisted:
  "map_of ups_status_codes c = None \<Longrightarrow> status_rank_of (JStr c) = 0"
  by (simp add: status_rank_of_def py_dict_item_def py_bind_def)

lemma package_latest_activity:
  "package_latest (ups_package (ups_activity address code description date time))
     = Inr (ups_activity address code description date time, status_rank_of code)"
  "package_latest (ups_package (JList (ups_activity address code description date time # older)))
     = Inr (ups_activity address code description date time, status_rank_of code)"
  by (simp_all add: package_latest_def ups_package_def ups_activity_def py_bind_def py_get_def
      py_first_def)

lemma multi_package_like_single:
  assumes "rank_loop packages (oa, 0) = Inr (Some a, r)"
  shows "simplify_ups_resp (ups_response tn (JList packages)) oa
           = simplify_ups_resp (ups_response tn (ups_package a)) oa''"
  using assms
  by (simp add: simplify_ups_resp_def ups_response_def ups_package_def py_bind_def py_get_def)

lemma rank_examples:
  "rank_loop [ups_package (ups_activity l (JStr ''I'') ''a'' d t),
              ups_package (ups_activity l (JStr ''X'') ''b'' d t),
              ups_package (ups_activity l (JStr ''NA'') ''c'' d t)] (oa, 0)
     = Inr (Some (ups_activity l (JStr ''X'') ''b'' d t), 9)"
  "rank_loop [ups_package (ups_activity l (JStr ''M'') ''first'' d t),
              ups_package (ups_activity l (JStr ''M'') ''second'' d t)] (oa, 0)
     = Inr (Some (ups_activity l (JStr ''M'') ''first'' d t), 5)"
  by (simp_all add: rank_step_def package_latest_activity status_ranks py_bind_def keep_higher_def)

section \<open>One record per answered identifier\<close>

text \<open>
  C4 says that every answered identifier gives exactly one record, also when a batch of
  Carrier B holds a single track entry. For a single entry the decoded \<open>TrackInfo\<close> is
  the entry itself, a dict; \<^verbatim>\<open>extend\<close> appends its keys, the normalizer skips each of
  them, and \<open>track_usps\<close> returns no record at all.
\<close>

theorem usps_single_entry_batch_dropped:
  "p_track_usps usps_single_entry_answer [''request'']
     = ([JStr ''@ID'', JStr ''Status'', JStr ''StatusCategory'', JStr ''StatusSummary'',
         JStr ''TrackSummary''], [])
   \<and> track_usps example_usps ''127.0.0.1'' usps_single_entry_answer [''9400100000000000000001''] True
     = ([], Inr (Simplified []))"
  by code_simp

text \<open>
  The rest of the claim holds: a list of track entries is returned as it is and gives
  one record per entry, with the entry's identifier; a UPS response with a single
  package, a listed code and a timestamp that parses gives one record with the
  identifier of the response.
\<close>

lemma simplify_usps_loop_all:
  assumes "list_all2 (\<lambda>e r. simplify_usps_entry e = Inr (Some r)) entries recs"
  shows "simplify_usps_loop entries acc = Inr (acc @ recs)"
  using assms by (induction entries recs arbitrary: acc rule: list_all2_induct) simp_all

lemma usps_one_record_per_entry:
  assumes "list_all2 (\<lambda>e r. simplify_usps_entry e = Inr (Some r)) entries recs"
  shows "p_simplify_usps entries = Inr recs"
  using simplify_usps_loop_all[OF assms, of "[]"] by (simp add: p_simplify_usps_def)

lemma usps_record_tracking_number:
  assumes "simplify_usps_entry e = Inr (Some r)"
  shows "\<exists>number. py_get e ''@ID'' = Inr number \<and> map_of r ''trackingNumber'' = Some (PJson number)"
  using assms unfolding simplify_usps_entry_def Let_def
  by (auto simp: py_bind_Inr split: sum.splits)

lemma usps_list_batch_fetched:
  assumes "net 0 request = Inr (usps_document (JList entries))"
  shows "p_track_usps net [request] = (entries, [])"
  using assms
  by (simp add: p_track_usps_def usps_fetch_one_def usps_document_def py_bind_def py_get_def py_iter_def)

lemma ups_single_package_one_record:
  assumes "py_dict_item ups_status_codes code = Inr entry"
    and "strptime (date @ time) ''%Y%m%d%H%M%S'' = Inr d"
  shows "\<exists>r. p_simplify_ups [ups_response tn (ups_package
                 (ups_activity address code description date time))] = Inr [r]
             \<and> map_of r ''trackingNumber'' = Some (PJson (JStr tn))"
proof -
  from assms(1) obtain c where c: "code = JStr c" "map_of ups_status_codes c = Some entry"
    by (auto simp: py_dict_item_def split: json.splits option.splits)
  then have "entry \<in> snd ` set ups_status_codes" by (metis map_of_SomeD image_eqI snd_conv)
  then obtain kvs where "entry = JObj kvs" by (auto simp: ups_status_codes_def)
  then obtain general where "py_get_default entry ''general_status'' (JStr ''Unknown'') = Inr general"
    by (simp add: py_get_default_def)
  then show ?thesis using assms
    by (simp add: p_simplify_ups_def ups_single_package_date py_bind_def)
qed

end
